theory Spec2Isabelle
  imports Main "HOL-Library.Sublist"
begin

section \<open>Python strings\<close>

text \<open>
  A Python \<open>str\<close> is a sequence of Unicode code points, and \<open>len\<close>, slicing, \<open>strip\<close> and
  \<open>split\<close> all count code points. A string is therefore modelled as a list of code points
  (natural numbers); \<open>str\<close> turns an ASCII literal of the source into such a list.
\<close>

type_synonym codepoint = nat
type_synonym pystr = "codepoint list"

definition str :: "string \<Rightarrow> pystr" where
  "str = map of_char"

text \<open>\<open>str.isspace\<close> of one character: the code points Python treats as whitespace.\<close>

definition isspace :: "codepoint \<Rightarrow> bool" where
  "isspace c = (c \<in> set [9, 10, 11, 12, 13, 28, 29, 30, 31, 32, 133, 160, 5760,
     8192, 8193, 8194, 8195, 8196, 8197, 8198, 8199, 8200, 8201, 8202,
     8232, 8233, 8239, 8287, 12288])"

text \<open>\<open>s.strip()\<close>: leading and trailing whitespace removed.\<close>

definition lstrip :: "pystr \<Rightarrow> pystr" where
  "lstrip s = dropWhile isspace s"

definition rstrip :: "pystr \<Rightarrow> pystr" where
  "rstrip s = rev (dropWhile isspace (rev s))"

definition strip :: "pystr \<Rightarrow> pystr" where
  "strip s = rstrip (lstrip s)"

text \<open>
  \<open>s.split(sep)\<close> for a one-character separator: every occurrence of the separator ends a
  piece, empty pieces are kept, and the empty string gives one empty piece.
\<close>

primrec split_on :: "codepoint \<Rightarrow> pystr \<Rightarrow> pystr list" where
  "split_on c [] = [[]]"
| "split_on c (x # xs) =
     (if x = c then [] # split_on c xs
      else (x # hd (split_on c xs)) # tl (split_on c xs))"

text \<open>
  \<open>s.split()\<close> without arguments: the maximal runs of non-whitespace characters, in order;
  \<open>cur\<close> is the run being read, reversed.
\<close>

primrec split_runs :: "pystr \<Rightarrow> pystr \<Rightarrow> pystr list" where
  "split_runs cur [] = (if cur = [] then [] else [rev cur])"
| "split_runs cur (x # xs) =
     (if isspace x then (if cur = [] then split_runs [] xs else rev cur # split_runs [] xs)
      else split_runs (x # cur) xs)"

definition split_ws :: "pystr \<Rightarrow> pystr list" where
  "split_ws s = split_runs [] s"

text \<open>\<open>sep.join(xs)\<close>.\<close>

fun join :: "pystr \<Rightarrow> pystr list \<Rightarrow> pystr" where
  "join sep [] = []"
| "join sep [x] = x"
| "join sep (x # y # ys) = x @ sep @ join sep (y # ys)"

text \<open>\<open>s[i:j]\<close> for \<open>0 \<le> i \<le> j\<close> and \<open>range(start, stop, step)\<close> for a positive step.\<close>

definition slice :: "'a list \<Rightarrow> nat \<Rightarrow> nat \<Rightarrow> 'a list" where
  "slice s i j = take (j - i) (drop i s)"

function py_range :: "nat \<Rightarrow> nat \<Rightarrow> nat \<Rightarrow> nat list" where
  "py_range start stop step =
     (if 0 < step \<and> start < stop then start # py_range (start + step) stop step else [])"
  by pat_completeness auto
termination
  by (relation "measure (\<lambda>(start, stop, step). stop - start)") auto

declare py_range.simps [simp del]

section \<open>Persisted files, records and the outside world\<close>

text \<open>
  A JSON file of the program is absent, present with zero bytes (what \<open>__init__\<close> writes
  with \<open>f.write('')\<close>), or holds the value that \<open>json.dump\<close> wrote and \<open>json.load\<close> reads
  back; \<open>json.dump\<close> escapes every non-ASCII character, so it writes any string. The
  report file is plain text written with \<open>f.write\<close>: absent, or its text. Other
  file-system failures (permissions, full disk) are outside the model.
\<close>

datatype 'a json_file = No_file | Zero_bytes | Json 'a

datatype py_exception =
    KeyError pystr
  | AttributeError pystr
  | JSONDecodeError
  | UnicodeEncodeError
  | FileNotFoundError
  | RequestException pystr
  | OtherException pystr

definition path_exists :: "'a json_file \<Rightarrow> bool" where
  "path_exists f = (f \<noteq> No_file)"

text \<open>\<open>os.path.getsize(file) == 0\<close>; serialised JSON is never zero bytes long.\<close>

definition getsize_is_zero :: "'a json_file \<Rightarrow> bool" where
  "getsize_is_zero f = (f = Zero_bytes)"

definition json_load :: "'a json_file \<Rightarrow> py_exception + 'a" where
  "json_load f = (case f of
       No_file \<Rightarrow> Inl FileNotFoundError
     | Zero_bytes \<Rightarrow> Inl JSONDecodeError
     | Json v \<Rightarrow> Inr v)"

text \<open>
  The dict \<open>{"url": ..., "title": ..., "text": ...}\<close> that \<open>search\<close> appends. The title is
  \<open>None\<close> when BeautifulSoup's \<open>soup.title.string\<close> is \<open>None\<close>.
\<close>

record extraction_record =
  rec_url :: pystr
  rec_title :: "pystr option"
  rec_text :: pystr

text \<open>
  One entry of the search provider's result list: a JSON object, read with \<open>res['url']\<close>
  and \<open>res.get('title', '')\<close>. Its values are taken to be strings, as the providers send
  them.
\<close>

type_synonym result_entry = "pystr \<rightharpoonup> pystr"

datatype web_section = Web_section (results_key: "result_entry list option")

datatype brave_response = Brave_response (web_key: "web_section option")

datatype serper_response = Serper_response (organic_key: "result_entry list option")

text \<open>
  What the program reads from a parsed page. \<open>soup_title\<close> is \<open>None\<close> when the document has
  no \<open>title\<close> element and \<open>Some t\<close> with \<open>t = soup.title.string\<close> otherwise (itself possibly
  \<open>None\<close>); \<open>soup_body\<close> is \<open>None\<close> when the document has no body, and otherwise
  \<open>soup.body.get_text()\<close> after the script, style, noscript, footer and nav elements were
  removed.
\<close>

record soup =
  soup_title :: "pystr option option"
  soup_body :: "pystr option"

text \<open>
  Effects in the order the program performs them. The services outside the program are
  oracles: each answers a request made at time \<open>t\<close> (the number of effects performed so
  far) with a value or with the exception the call raises. \<open>fetch_page\<close> stands for
  \<open>requests.get\<close> followed by the BeautifulSoup parse and its accessors.
\<close>

datatype event =
    Llm_request pystr
  | Brave_request pystr
  | Serper_request pystr
  | Page_fetch pystr
  | Sleep nat
  | Print_error pystr py_exception

record env =
  completion :: "nat \<Rightarrow> pystr \<Rightarrow> py_exception + pystr"
  brave_search :: "nat \<Rightarrow> pystr \<Rightarrow> py_exception + brave_response"
  serper_search :: "nat \<Rightarrow> pystr \<Rightarrow> py_exception + serper_response"
  fetch_page :: "nat \<Rightarrow> pystr \<Rightarrow> py_exception + soup"

record state =
  queries_file :: "pystr list json_file"
  results_file :: "extraction_record list json_file"
  report_file :: "pystr option"
  trace :: "event list"

definition emit :: "event \<Rightarrow> state \<Rightarrow> state" where
  "emit e s = s\<lparr>trace := trace s @ [e]\<rparr>"

text \<open>\<open>ZeroSearch.__init__\<close>: every storage file that does not exist is created.\<close>

definition init :: "state \<Rightarrow> state" where
  "init s = s\<lparr>
     queries_file := (if path_exists (queries_file s) then queries_file s else Zero_bytes),
     results_file := (if path_exists (results_file s) then results_file s else Json []),
     report_file := (case report_file s of None \<Rightarrow> Some [] | Some t \<Rightarrow> Some t)\<rparr>"

section \<open>Chunked reporter\<close>

definition MAX_TOKENS :: nat where
  "MAX_TOKENS = 100000"

text \<open>\<open>int(MAX_TOKENS * 2.5)\<close>; the product is the exact float \<open>250000.0\<close>.\<close>

definition CHUNK_SIZE :: nat where
  "CHUNK_SIZE = MAX_TOKENS * 5 div 2"

definition sentinel :: pystr where
  "sentinel = str ''No results available for reporting''"

definition summary_prompt :: "pystr \<Rightarrow> pystr" where
  "summary_prompt text =
     str ''You are a web researcher AI. Analyze the following text and create a detailed report ''
     @ str ''capturing all important themes, patterns, and data points. Include specific facts, ''
     @ str ''statistics, and insights. Organize findings logically:\<newline>\<newline>''
     @ text"

text \<open>\<open>_get_ai_summary\<close> of the Brave variant: one completion request, the answer stripped.\<close>

definition get_ai_summary :: "env \<Rightarrow> pystr \<Rightarrow> state \<Rightarrow> (py_exception + pystr) \<times> state" where
  "get_ai_summary env text s =
     (let prompt = summary_prompt text;
          s1 = emit (Llm_request prompt) s
      in case completion env (length (trace s)) prompt of
           Inl e \<Rightarrow> (Inl e, s1)
         | Inr content \<Rightarrow> (Inr (strip content), s1))"

text \<open>\<open>f"Source: {res['url']}\n{res['text']}"\<close>\<close>

definition source_block :: "extraction_record \<Rightarrow> pystr" where
  "source_block res = str ''Source: '' @ rec_url res @ str ''\<newline>'' @ rec_text res"

text \<open>\<open>[full_text[i:i+CHUNK_SIZE] for i in range(0, len(full_text), CHUNK_SIZE)]\<close>\<close>

definition chunks :: "pystr \<Rightarrow> pystr list" where
  "chunks full_text =
     map (\<lambda>i. slice full_text i (i + CHUNK_SIZE)) (py_range 0 (length full_text) CHUNK_SIZE)"

text \<open>
  \<open>_get_ai_summary\<close> of the two Serper variants: the same text, but their \<open>__init__\<close> stores
  the key as \<open>self.openrouter_key\<close>, so building the request headers from
  \<open>self.openrouter_api_key\<close> raises before any request is made.
\<close>

definition get_ai_summary_serper :: "env \<Rightarrow> pystr \<Rightarrow> state \<Rightarrow> (py_exception + pystr) \<times> state" where
  "get_ai_summary_serper env text s = (Inl (AttributeError (str ''openrouter_api_key'')), s)"

text \<open>
  \<open>report\<close> has the same text in the three variants; \<open>self._get_ai_summary\<close> is the method of
  the variant at hand. The loop
  \<open>for chunk in chunks: summaries.append(self._get_ai_summary(chunk))\<close>:
\<close>

type_synonym summary_method = "env \<Rightarrow> pystr \<Rightarrow> state \<Rightarrow> (py_exception + pystr) \<times> state"

fun summarize_chunks ::
  "summary_method \<Rightarrow> env \<Rightarrow> pystr list \<Rightarrow> pystr list \<Rightarrow> state
     \<Rightarrow> (py_exception + pystr list) \<times> state" where
  "summarize_chunks summary env [] summaries s = (Inr summaries, s)"
| "summarize_chunks summary env (chunk # rest) summaries s =
     (case summary env chunk s of
        (Inl e, s1) \<Rightarrow> (Inl e, s1)
      | (Inr response, s1) \<Rightarrow> summarize_chunks summary env rest (summaries @ [response]) s1)"

text \<open>
  The end of \<open>report\<close>: \<open>with open(self.report_file, 'w') as f: f.write(final_report)\<close>.
  Opening the file truncates it; the text is then encoded, in UTF-8 (the default encoding
  is taken to be UTF-8), which raises \<open>UnicodeEncodeError\<close> on a lone surrogate (a code
  point from D800 to DFFF, which a JSON answer can carry) and leaves the file empty.
\<close>

definition encodable :: "pystr \<Rightarrow> bool" where
  "encodable t = list_all (\<lambda>c. c < 0xD800 \<or> 0xDFFF < c) t"

definition write_report :: "pystr \<Rightarrow> state \<Rightarrow> (py_exception + pystr) \<times> state" where
  "write_report final_report s =
     (if encodable final_report
      then (Inr final_report, s\<lparr>report_file := Some final_report\<rparr>)
      else (Inl UnicodeEncodeError, s\<lparr>report_file := Some []\<rparr>))"

definition report_method :: "summary_method \<Rightarrow> env \<Rightarrow> state \<Rightarrow> (py_exception + pystr) \<times> state" where
  "report_method summary env s =
     (if \<not> path_exists (results_file s) \<or> getsize_is_zero (results_file s)
      then (Inr sentinel, s)
      else (case json_load (results_file s) of
        Inl e \<Rightarrow> (Inl e, s)
      | Inr results \<Rightarrow>
          (let full_text = join (str ''\<newline>\<newline>'') (map source_block results)
           in (case
                (if length full_text > CHUNK_SIZE
                 then (case summarize_chunks summary env (chunks full_text) [] s of
                         (Inl e, s1) \<Rightarrow> (Inl e, s1)
                       | (Inr summaries, s1) \<Rightarrow>
                           summary env (join (str ''\<newline>\<newline>'') summaries) s1)
                 else summary env full_text s)
               of (Inl e, s2) \<Rightarrow> (Inl e, s2)
                | (Inr final_report, s2) \<Rightarrow> write_report final_report s2))))"

text \<open>\<open>report\<close> of the Brave variant and of the Serper variants.\<close>

definition report :: "env \<Rightarrow> state \<Rightarrow> (py_exception + pystr) \<times> state" where
  "report = report_method get_ai_summary"

definition report_serper :: "env \<Rightarrow> state \<Rightarrow> (py_exception + pystr) \<times> state" where
  "report_serper = report_method get_ai_summary_serper"

section \<open>Query generator\<close>

definition query_prompt :: "pystr \<Rightarrow> pystr" where
  "query_prompt theme =
     str ''Compile 10 prompts for comprehensive web research of this theme: '' @ theme
     @ str ''. Answer ONLY with the queries.''"

text \<open>
  \<open>get_querries\<close> (the same in the three variants): one completion request;
  \<open>queries = [q.strip() for q in raw_queries.split('\n') if q.strip()]\<close>; the list is
  written to the query file with \<open>open(..., 'w')\<close> and returned.
\<close>

definition get_querries :: "env \<Rightarrow> pystr \<Rightarrow> state \<Rightarrow> (py_exception + pystr list) \<times> state" where
  "get_querries env theme s =
     (let prompt = query_prompt theme;
          s1 = emit (Llm_request prompt) s
      in case completion env (length (trace s)) prompt of
           Inl e \<Rightarrow> (Inl e, s1)
         | Inr content \<Rightarrow>
             (let raw_queries = strip content;
                  queries = [strip q. q \<leftarrow> split_on (of_char (CHR 0x0A)) raw_queries, strip q \<noteq> []]
              in (Inr queries, s1\<lparr>queries_file := Json queries\<rparr>)))"

section \<open>Search and extract\<close>

text \<open>\<open>res.get(key, default)\<close> and \<open>res[key]\<close> on a result entry.\<close>

definition dict_get :: "result_entry \<Rightarrow> pystr \<Rightarrow> pystr \<Rightarrow> pystr" where
  "dict_get res key dflt = (case res key of None \<Rightarrow> dflt | Some v \<Rightarrow> v)"

definition dict_item :: "result_entry \<Rightarrow> pystr \<Rightarrow> py_exception + pystr" where
  "dict_item res key = (case res key of None \<Rightarrow> Inl (KeyError key) | Some v \<Rightarrow> Inr v)"

text \<open>
  \<open>title = res.get('title', '')\<close>, then
  \<open>if not title and soup.title: title = soup.title.string\<close>.
\<close>

definition resolve_title :: "result_entry \<Rightarrow> soup \<Rightarrow> pystr option" where
  "resolve_title res sp =
     (let title = dict_get res (str ''title'') []
      in case soup_title sp of
           Some string \<Rightarrow> if title = [] then string else Some title
         | None \<Rightarrow> Some title)"

text \<open>\<open>' '.join(soup.body.get_text().split())\<close> if the document has a body, else \<open>''\<close>.\<close>

definition extract_text :: "soup \<Rightarrow> pystr" where
  "extract_text sp =
     (case soup_body sp of
        Some body_text \<Rightarrow> join (str '' '') (split_ws body_text)
      | None \<Rightarrow> [])"

text \<open>
  The body of the \<open>try\<close> block, the same in the three variants: fetch and parse the page,
  append the record with \<open>text[:100000]\<close>, then \<open>time.sleep(1)\<close>. An exception leaves
  \<open>results\<close> as it was and skips the sleep.
\<close>

definition process_page ::
  "env \<Rightarrow> result_entry \<Rightarrow> pystr \<Rightarrow> extraction_record list \<Rightarrow> state
     \<Rightarrow> (py_exception + extraction_record list) \<times> state" where
  "process_page env res url results s =
     (let s1 = emit (Page_fetch url) s
      in case fetch_page env (length (trace s)) url of
           Inl e \<Rightarrow> (Inl e, s1)
         | Inr sp \<Rightarrow>
             (let title = resolve_title res sp;
                  text = extract_text sp;
                  results' = results @
                    [\<lparr>rec_url = url, rec_title = title, rec_text = take 100000 text\<rparr>]
              in (Inr results', emit (Sleep 1) s1)))"

text \<open>
  The loop \<open>for res in web_results\<close> of the Brave variant: \<open>url = res['url']\<close> stands before
  the \<open>try\<close>, so its \<open>KeyError\<close> leaves the loop; \<open>except Exception\<close> prints and continues.
  Writing the message to standard output is taken to succeed.
\<close>

fun brave_loop ::
  "env \<Rightarrow> result_entry list \<Rightarrow> extraction_record list \<Rightarrow> state
     \<Rightarrow> (py_exception + extraction_record list) \<times> state" where
  "brave_loop env [] results s = (Inr results, s)"
| "brave_loop env (res # rest) results s =
     (case dict_item res (str ''url'') of
        Inl e \<Rightarrow> (Inl e, s)
      | Inr url \<Rightarrow>
          (case process_page env res url results s of
             (Inl e, s1) \<Rightarrow> brave_loop env rest results (emit (Print_error url e) s1)
           | (Inr results', s1) \<Rightarrow> brave_loop env rest results' s1))"

text \<open>
  The loop \<open>for res in organic_results\<close> of the Serper variants:
  \<open>url = res.get('link', '')\<close> and \<open>if not url: continue\<close> before the same \<open>try\<close>.
\<close>

fun serper_loop ::
  "env \<Rightarrow> result_entry list \<Rightarrow> extraction_record list \<Rightarrow> state
     \<Rightarrow> (py_exception + extraction_record list) \<times> state" where
  "serper_loop env [] results s = (Inr results, s)"
| "serper_loop env (res # rest) results s =
     (let url = dict_get res (str ''link'') []
      in if url = [] then serper_loop env rest results s
         else (case process_page env res url results s of
                 (Inl e, s1) \<Rightarrow> serper_loop env rest results (emit (Print_error url e) s1)
               | (Inr results', s1) \<Rightarrow> serper_loop env rest results' s1))"

text \<open>
  The end of \<open>search\<close>, the same in the three variants: load the stored list if the file
  exists and is not empty, extend it, write it back.
\<close>

definition append_results :: "extraction_record list \<Rightarrow> state \<Rightarrow> (py_exception + unit) \<times> state" where
  "append_results results s =
     (case (if path_exists (results_file s) \<and> \<not> getsize_is_zero (results_file s)
            then json_load (results_file s) else Inr [])
      of Inl e \<Rightarrow> (Inl e, s)
       | Inr existing_results \<Rightarrow>
           (Inr (), s\<lparr>results_file := Json (existing_results @ results)\<rparr>))"

text \<open>\<open>brave_response.get('web', {}).get('results', [])\<close>\<close>

definition web_results :: "brave_response \<Rightarrow> result_entry list" where
  "web_results brave_response =
     (case web_key brave_response of
        None \<Rightarrow> []
      | Some w \<Rightarrow> (case results_key w of None \<Rightarrow> [] | Some rs \<Rightarrow> rs))"

text \<open>\<open>serper_response.get("organic", [])\<close>\<close>

definition organic_results :: "serper_response \<Rightarrow> result_entry list" where
  "organic_results serper_response =
     (case organic_key serper_response of None \<Rightarrow> [] | Some rs \<Rightarrow> rs)"

text \<open>\<open>search\<close> of the Brave variant.\<close>

definition search :: "env \<Rightarrow> pystr \<Rightarrow> state \<Rightarrow> (py_exception + unit) \<times> state" where
  "search env query s =
     (let s0 = emit (Brave_request query) s
      in case brave_search env (length (trace s)) query of
           Inl e \<Rightarrow> (Inl e, s0)
         | Inr brave_response \<Rightarrow>
             (case brave_loop env (web_results brave_response) [] s0 of
                (Inl e, s1) \<Rightarrow> (Inl e, s1)
              | (Inr results, s1) \<Rightarrow> append_results results s1))"

text \<open>\<open>search\<close> of the Serper variants.\<close>

definition search_serper :: "env \<Rightarrow> pystr \<Rightarrow> state \<Rightarrow> (py_exception + unit) \<times> state" where
  "search_serper env query s =
     (let s0 = emit (Serper_request query) s
      in case serper_search env (length (trace s)) query of
           Inl e \<Rightarrow> (Inl e, s0)
         | Inr serper_response \<Rightarrow>
             (case serper_loop env (organic_results serper_response) [] s0 of
                (Inl e, s1) \<Rightarrow> (Inl e, s1)
              | (Inr results, s1) \<Rightarrow> append_results results s1))"

section \<open>Sessions and observations\<close>

text \<open>
  A driver calls the three operations in any order; a call that raises leaves the state
  as it was when the exception left the operation.
\<close>

datatype call = Get_querries pystr | Search pystr | Report

definition run_brave :: "env \<Rightarrow> call \<Rightarrow> state \<Rightarrow> state" where
  "run_brave env c s =
     (case c of
        Get_querries theme \<Rightarrow> snd (get_querries env theme s)
      | Search query \<Rightarrow> snd (search env query s)
      | Report \<Rightarrow> snd (report env s))"

definition run_serper :: "env \<Rightarrow> call \<Rightarrow> state \<Rightarrow> state" where
  "run_serper env c s =
     (case c of
        Get_querries theme \<Rightarrow> snd (get_querries env theme s)
      | Search query \<Rightarrow> snd (search_serper env query s)
      | Report \<Rightarrow> snd (report_serper env s))"

text \<open>The corpus a later call loads, as \<open>search\<close> loads it.\<close>

definition corpus :: "state \<Rightarrow> extraction_record list" where
  "corpus s = (case results_file s of Json rs \<Rightarrow> rs | _ \<Rightarrow> [])"

text \<open>The effects of one call, and the prompts of the completion requests among them.\<close>

definition new_events :: "state \<Rightarrow> state \<Rightarrow> event list" where
  "new_events s s' = drop (length (trace s)) (trace s')"

primrec llm_prompts :: "event list \<Rightarrow> pystr list" where
  "llm_prompts [] = []"
| "llm_prompts (e # es) =
     (case e of Llm_request p \<Rightarrow> p # llm_prompts es | _ \<Rightarrow> llm_prompts es)"

section \<open>A small session, for concrete instances\<close>

definition demo_record :: extraction_record where
  "demo_record = \<lparr>rec_url = str ''http://a'', rec_title = Some (str ''A''),
                    rec_text = str ''hello world''\<rparr>"

definition demo_env :: env where
  "demo_env = \<lparr>completion = (\<lambda>t p. Inr (str '' Summary '')),
      brave_search = (\<lambda>t q. Inl (RequestException [])),
      serper_search = (\<lambda>t q. Inl (RequestException [])),
      fetch_page = (\<lambda>t u. Inl (RequestException []))\<rparr>"

definition demo_state :: state where
  "demo_state = \<lparr>queries_file = Zero_bytes, results_file = Json [demo_record],
                   report_file = Some [], trace = []\<rparr>"

definition long_record :: extraction_record where
  "long_record = \<lparr>rec_url = str ''http://a'', rec_title = None,
                    rec_text = replicate 100000 120\<rparr>"

definition big_corpus :: "extraction_record list" where
  "big_corpus = [long_record, long_record, long_record]"

definition big_state :: state where
  "big_state = \<lparr>queries_file = Zero_bytes, results_file = Json big_corpus,
                  report_file = None, trace = []\<rparr>"

definition query_env :: env where
  "query_env = \<lparr>completion = (\<lambda>t p. Inr (str '' 1. foo \<newline>\<newline>  bar\<newline> '')),
      brave_search = (\<lambda>t q. Inl (RequestException [])),
      serper_search = (\<lambda>t q. Inl (RequestException [])),
      fetch_page = (\<lambda>t u. Inl (RequestException []))\<rparr>"

definition fresh_state :: state where
  "fresh_state = init \<lparr>queries_file = No_file, results_file = No_file,
                        report_file = None, trace = []\<rparr>"

section \<open>The query list as the specification words it\<close>

text \<open>
  The response split at every newline, each line trimmed, blank lines discarded; and what
  a blank entry is: nothing but whitespace (the empty string included).
\<close>

definition lines_trimmed_nonblank :: "pystr \<Rightarrow> pystr list" where
  "lines_trimmed_nonblank content =
     filter (\<lambda>line. line \<noteq> []) (map strip (split_on (of_char (CHR 0x0A)) content))"

definition blank :: "pystr \<Rightarrow> bool" where
  "blank q = list_all isspace q"

text \<open>The record invariant: a non-empty url and a text of at most 100,000 characters.\<close>

definition record_ok :: "extraction_record \<Rightarrow> bool" where
  "record_ok r = (rec_url r \<noteq> [] \<and> length (rec_text r) \<le> 100000)"

text \<open>
  The delay of the specification, read on the effects of one call: every page fetch after
  the first comes after a one-second sleep that follows the previous fetch. \<open>slept\<close> says
  whether such a sleep has happened since the last fetch.
\<close>

fun fetches_delayed :: "bool \<Rightarrow> event list \<Rightarrow> bool" where
  "fetches_delayed slept [] = True"
| "fetches_delayed slept (Page_fetch u # es) = (slept \<and> fetches_delayed False es)"
| "fetches_delayed slept (Sleep n # es) = fetches_delayed (slept \<or> n = 1) es"
| "fetches_delayed slept (e # es) = fetches_delayed slept es"

text \<open>A provider with three results, of which the second cannot be fetched.\<close>

definition demo_soup :: soup where
  "demo_soup = \<lparr>soup_title = Some (Some (str ''Doc'')),
                  soup_body = Some (str ''  hello   world '')\<rparr>"

definition web_env :: env where
  "web_env = \<lparr>completion = (\<lambda>t p. Inr (str '' Summary '')),
      brave_search = (\<lambda>t q.
        if q = str ''bad''
        then Inr (Brave_response (Some (Web_section (Some
               [[str ''title'' \<mapsto> str ''No url''],
                [str ''url'' \<mapsto> str ''http://a'']]))))
        else Inr (Brave_response (Some (Web_section (Some
               [[str ''url'' \<mapsto> str ''http://a'', str ''title'' \<mapsto> str ''A''],
                [str ''url'' \<mapsto> str ''http://b''],
                [str ''url'' \<mapsto> str ''http://d'']]))))),
      serper_search = (\<lambda>t q.
        Inr (Serper_response (Some
               [[str ''title'' \<mapsto> str ''No link''],
                [str ''link'' \<mapsto> str ''http://b''],
                [str ''link'' \<mapsto> str ''http://a'']]))),
      fetch_page = (\<lambda>t u.
        if u = [] \<or> u = str ''http://b'' then Inl (RequestException (str ''timeout''))
        else Inr demo_soup)\<rparr>"

definition record_a :: extraction_record where
  "record_a = \<lparr>rec_url = str ''http://a'', rec_title = Some (str ''A''),
                 rec_text = str ''hello world''\<rparr>"

definition record_d :: extraction_record where
  "record_d = \<lparr>rec_url = str ''http://d'', rec_title = Some (str ''Doc''),
                 rec_text = str ''hello world''\<rparr>"

definition entry_d :: result_entry where
  "entry_d = [str ''url'' \<mapsto> str ''http://d'']"

text \<open>
  Two further outside worlds: a provider whose second result has no url, and a page whose
  \<open>title\<close> element is empty, so that \<open>soup.title.string\<close> is \<open>None\<close>.
\<close>

definition late_env :: env where
  "late_env = web_env\<lparr>brave_search := (\<lambda>t q.
     Inr (Brave_response (Some (Web_section (Some
            [entry_d, [str ''title'' \<mapsto> str ''No url'']])))))\<rparr>"

definition untitled_soup :: soup where
  "untitled_soup = \<lparr>soup_title = Some None, soup_body = Some (str ''  hello   world '')\<rparr>"

definition untitled_env :: env where
  "untitled_env = web_env\<lparr>
     brave_search := (\<lambda>t q. Inr (Brave_response (Some (Web_section (Some [entry_d]))))),
     fetch_page := (\<lambda>t u. Inr untitled_soup)\<rparr>"

section \<open>Properties of the string and slicing functions\<close>

lemma length_str: "length (str x) = length x"
  by (simp add: str_def)

lemma py_range_unfold:
  "py_range i stop n = (if 0 < n \<and> i < stop then i # py_range (i + n) stop n else [])"
  by (rule py_range.simps)

lemma concat_slices:
  "0 < n \<Longrightarrow> concat (map (\<lambda>i. slice s i (i + n)) (py_range i (length s) n)) = drop i s"
proof (induction i "length s" n rule: py_range.induct)
  case (1 i n)
  show ?case
  proof (cases "i < length s")
    case True
    have "concat (map (\<lambda>i. slice s i (i + n)) (py_range i (length s) n))
        = slice s i (i + n) @ concat (map (\<lambda>i. slice s i (i + n)) (py_range (i + n) (length s) n))"
      using True "1.prems" by (subst py_range_unfold) simp
    also have "\<dots> = take n (drop i s) @ drop (i + n) s"
      using "1.hyps" True "1.prems" by (simp add: slice_def)
    also have "\<dots> = drop i s"
      by (metis add.commute append_take_drop_id drop_drop)
    finally show ?thesis .
  next
    case False
    then show ?thesis by (subst py_range_unfold) simp
  qed
qed

lemma py_range_eq:
  "0 < n \<Longrightarrow> py_range i stop n = map (\<lambda>k. i + k * n) [0..<(stop - i + n - 1) div n]"
proof (induction i stop n rule: py_range.induct)
  case (1 i stop n)
  show ?case
  proof (cases "i < stop")
    case True
    have d: "(stop - i + n - 1) div n = Suc ((stop - (i + n) + n - 1) div n)"
    proof -
      define m where "m = stop - i - 1"
      have e1: "stop - i + n - 1 = m + n" using True by (simp add: m_def)
      have e2: "(stop - (i + n) + n - 1) div n = m div n"
      proof (cases "i + n \<le> stop")
        case True
        then have "stop - (i + n) + n - 1 = m" using \<open>0 < n\<close> by (simp add: m_def)
        then show ?thesis by simp
      next
        case False
        then have "stop - (i + n) + n - 1 < n" "m < n" using \<open>0 < n\<close> by (auto simp: m_def)
        then show ?thesis by simp
      qed
      have "(m + n) div n = Suc (m div n)" using \<open>0 < n\<close> div_add_self2[of n m] by simp
      then show ?thesis using e1 e2 by simp
    qed
    have "py_range i stop n = i # py_range (i + n) stop n"
      using True "1.prems" by (subst py_range_unfold) simp
    also have "\<dots> = i # map (\<lambda>k. (i + n) + k * n) [0..<(stop - (i + n) + n - 1) div n]"
      using "1.IH" True "1.prems" by simp
    also have "\<dots> = map (\<lambda>k. i + k * n) [0..<Suc ((stop - (i + n) + n - 1) div n)]"
      by (simp add: upt_rec[of 0] map_Suc_upt[symmetric] del: upt_Suc)
    finally show ?thesis using d by simp
  next
    case False
    then have "(stop - i + n - 1) div n = 0" using \<open>0 < n\<close> by simp
    then show ?thesis using False by (subst py_range_unfold) simp
  qed
qed


lemma CHUNK_SIZE_value: "CHUNK_SIZE = 250000"
  by (simp add: CHUNK_SIZE_def MAX_TOKENS_def)

lemma CHUNK_SIZE_pos: "0 < CHUNK_SIZE"
  by (simp add: CHUNK_SIZE_value)

lemma concat_chunks: "concat (chunks s) = s"
  using concat_slices [OF CHUNK_SIZE_pos, of s 0] by (simp add: chunks_def)

lemma length_chunks: "length (chunks s) = (length s + CHUNK_SIZE - 1) div CHUNK_SIZE"
  by (simp add: chunks_def py_range_eq [OF CHUNK_SIZE_pos])

lemma chunks_nth:
  "k < length (chunks s) \<Longrightarrow> chunks s ! k = take CHUNK_SIZE (drop (k * CHUNK_SIZE) s)"
  by (simp add: chunks_def py_range_eq [OF CHUNK_SIZE_pos] slice_def)

lemma ceil_div_bound:
  assumes "0 < (n::nat)" and "k < (L + n - 1) div n"
  shows "k * n < L"
proof -
  have "Suc k * n \<le> ((L + n - 1) div n) * n"
    using assms(2) by (simp add: Suc_leI mult_le_mono1 del: mult_Suc)
  also have "\<dots> \<le> L + n - 1" by (rule div_times_less_eq_dividend)
  finally show ?thesis using assms(1) by simp
qed

lemma chunk_inner_length:
  assumes "Suc k < length (chunks s)"
  shows "length (chunks s ! k) = CHUNK_SIZE"
proof -
  have "Suc k * CHUNK_SIZE < length s"
    using assms ceil_div_bound [OF CHUNK_SIZE_pos] unfolding length_chunks by blast
  then show ?thesis using assms by (simp add: chunks_nth)
qed

lemma chunk_last_length:
  assumes "k < length (chunks s)"
  shows "0 < length (chunks s ! k) \<and> length (chunks s ! k) \<le> CHUNK_SIZE"
proof -
  have "k * CHUNK_SIZE < length s"
    using assms ceil_div_bound [OF CHUNK_SIZE_pos] unfolding length_chunks by blast
  then show ?thesis using assms CHUNK_SIZE_pos by (simp add: chunks_nth)
qed

section \<open>Properties of the chunked reporter\<close>

lemma get_ai_summary_effect:
  assumes "get_ai_summary env text s = (res, s')"
  shows "s' = emit (Llm_request (summary_prompt text)) s"
  using assms by (auto simp: get_ai_summary_def Let_def split: sum.splits)

lemma get_ai_summary_result:
  "fst (get_ai_summary env text s) =
     map_sum id strip (completion env (length (trace s)) (summary_prompt text))"
  by (auto simp: get_ai_summary_def Let_def split: sum.splits)

lemma summarize_chunks_effect:
  "summarize_chunks get_ai_summary env cs sums s = (Inr out, s') \<Longrightarrow>
     s' = s\<lparr>trace := trace s @ map (\<lambda>c. Llm_request (summary_prompt c)) cs\<rparr>
     \<and> length out = length sums + length cs"
proof (induction cs arbitrary: sums s)
  case Nil
  then show ?case by simp
next
  case (Cons c cs)
  obtain res s1 where g: "get_ai_summary env c s = (res, s1)" by (cases "get_ai_summary env c s")
  then have s1: "s1 = emit (Llm_request (summary_prompt c)) s" by (rule get_ai_summary_effect)
  from Cons.prems g obtain r where r: "res = Inr r"
    and rest: "summarize_chunks get_ai_summary env cs (sums @ [r]) s1 = (Inr out, s')"
    by (cases res) auto
  from Cons.IH [OF rest] show ?case by (simp add: s1 emit_def)
qed


lemma llm_prompts_append: "llm_prompts (xs @ ys) = llm_prompts xs @ llm_prompts ys"
  by (induction xs) (auto split: event.splits)

lemma llm_prompts_requests: "llm_prompts (map Llm_request ps) = ps"
  by (induction ps) auto

lemma report_no_storage:
  "results_file s = No_file \<or> results_file s = Zero_bytes \<Longrightarrow> report env s = (Inr sentinel, s)"
  by (auto simp: report_def report_method_def path_exists_def getsize_is_zero_def)

lemma report_stored:
  assumes "results_file s = Json records"
  shows "report env s =
     (let full_text = join (str ''\<newline>\<newline>'') (map source_block records)
      in (case
            (if length full_text > CHUNK_SIZE
             then (case summarize_chunks get_ai_summary env (chunks full_text) [] s of
                     (Inl e, s1) \<Rightarrow> (Inl e, s1)
                   | (Inr summaries, s1) \<Rightarrow>
                       get_ai_summary env (join (str ''\<newline>\<newline>'') summaries) s1)
             else get_ai_summary env full_text s)
          of (Inl e, s2) \<Rightarrow> (Inl e, s2)
           | (Inr final_report, s2) \<Rightarrow> write_report final_report s2))"
  using assms
  by (simp add: report_def report_method_def path_exists_def getsize_is_zero_def json_load_def)

lemma write_report_Inr:
  "write_report t s = (Inr r, s') \<Longrightarrow> r = t \<and> s' = s\<lparr>report_file := Some t\<rparr> \<and> encodable t"
  by (auto simp: write_report_def split: if_splits)

lemma write_report_encodable:
  "encodable t \<Longrightarrow> write_report t s = (Inr t, s\<lparr>report_file := Some t\<rparr>)"
  by (simp add: write_report_def)

lemma write_report_surrogate:
  "\<not> encodable t \<Longrightarrow> write_report t s = (Inl UnicodeEncodeError, s\<lparr>report_file := Some []\<rparr>)"
  by (simp add: write_report_def)

lemma write_report_results_file: "results_file (snd (write_report t s)) = results_file s"
  by (simp add: write_report_def)

lemma report_success:
  assumes "results_file s = Json records" and "report env s = (Inr r, s')"
  shows "\<exists>texts. new_events s s' = map (\<lambda>c. Llm_request (summary_prompt c)) texts
           \<and> s' = s\<lparr>trace := trace s @ map (\<lambda>c. Llm_request (summary_prompt c)) texts,
                     report_file := Some r\<rparr>
           \<and> (if length (join (str ''\<newline>\<newline>'') (map source_block records)) > CHUNK_SIZE
              then \<exists>summaries. length summaries =
                        length (chunks (join (str ''\<newline>\<newline>'') (map source_block records)))
                    \<and> texts = chunks (join (str ''\<newline>\<newline>'') (map source_block records))
                                @ [join (str ''\<newline>\<newline>'') summaries]
              else texts = [join (str ''\<newline>\<newline>'') (map source_block records)])"
proof -
  define blob where "blob = join (str ''\<newline>\<newline>'') (map source_block records)"
  show ?thesis
  proof (cases "length blob > CHUNK_SIZE")
    case False
    obtain res s2 where g: "get_ai_summary env blob s = (res, s2)"
      by (cases "get_ai_summary env blob s")
    have s2: "s2 = emit (Llm_request (summary_prompt blob)) s"
      using g by (rule get_ai_summary_effect)
    from assms(2) g False have "res = Inr r" and "s' = s2\<lparr>report_file := Some r\<rparr>"
      by (auto simp: report_stored [OF assms(1)] blob_def [symmetric] split: sum.splits
          dest: write_report_Inr)
    then show ?thesis using False s2
      by (intro exI [of _ "[blob]"]) (simp add: blob_def [symmetric] emit_def new_events_def)
  next
    case True
    obtain res1 s1 where c: "summarize_chunks get_ai_summary env (chunks blob) [] s = (res1, s1)"
      by (cases "summarize_chunks get_ai_summary env (chunks blob) [] s")
    from assms(2) True c obtain summaries where r1: "res1 = Inr summaries"
      by (cases res1) (auto simp: report_stored [OF assms(1)] blob_def [symmetric])
    obtain res2 s2 where g: "get_ai_summary env (join (str ''\<newline>\<newline>'') summaries) s1 = (res2, s2)"
      by (cases "get_ai_summary env (join (str ''\<newline>\<newline>'') summaries) s1")
    have s2: "s2 = emit (Llm_request (summary_prompt (join (str ''\<newline>\<newline>'') summaries))) s1"
      using g by (rule get_ai_summary_effect)
    from summarize_chunks_effect [OF c [unfolded r1]]
    have s1: "s1 = s\<lparr>trace := trace s @ map (\<lambda>c. Llm_request (summary_prompt c)) (chunks blob)\<rparr>"
      and len: "length summaries = length (chunks blob)" by simp_all
    from assms(2) True c r1 g have "res2 = Inr r" and "s' = s2\<lparr>report_file := Some r\<rparr>"
      by (auto simp: report_stored [OF assms(1)] blob_def [symmetric] split: sum.splits
          dest: write_report_Inr)
    then show ?thesis using True s1 s2 len
      by (intro exI [of _ "chunks blob @ [join (str ''\<newline>\<newline>'') summaries]"])
         (auto simp: blob_def [symmetric] emit_def new_events_def)
  qed
qed


lemma strip_demo: "strip (str '' Summary '') = str ''Summary''"
  by (simp add: strip_def lstrip_def rstrip_def str_def isspace_def)

lemma encodable_demo: "encodable (str ''Summary'')"
  by (simp add: encodable_def str_def)

lemma report_demo:
  "report demo_env demo_state =
     (Inr (str ''Summary''),
      demo_state\<lparr>trace := [Llm_request (summary_prompt (source_block demo_record))],
                  report_file := Some (str ''Summary'')\<rparr>)"
  by (simp add: report_stored [of _ "[demo_record]"] demo_state_def demo_env_def
      get_ai_summary_def emit_def strip_demo source_block_def CHUNK_SIZE_value demo_record_def
      length_str Let_def write_report_encodable [OF encodable_demo])

lemma join_concat:
  "xs \<noteq> [] \<Longrightarrow> join sep xs @ sep = concat (map (\<lambda>x. x @ sep) xs)"
  by (induction sep xs rule: join.induct) auto

lemma join_nonempty: "x \<noteq> [] \<Longrightarrow> join sep (x # xs) \<noteq> []"
  by (cases xs) auto

lemma chunks_nonempty: "s \<noteq> [] \<Longrightarrow> chunks s \<noteq> []"
  using concat_chunks [of s] by auto

lemma get_ai_summary_returns:
  assumes "completion env (length (trace s)) (summary_prompt text) = Inr c"
  shows "get_ai_summary env text s = (Inr (strip c), emit (Llm_request (summary_prompt text)) s)"
  using assms by (simp add: get_ai_summary_def)

lemma summarize_chunks_returns:
  assumes "\<And>t p. \<exists>c. completion env t p = Inr c"
  shows "\<exists>out s'. summarize_chunks get_ai_summary env cs sums s = (Inr out, s')"
proof (induction cs arbitrary: sums s)
  case Nil
  show ?case by simp
next
  case (Cons c cs)
  from assms obtain a where "completion env (length (trace s)) (summary_prompt c) = Inr a" by blast
  then show ?case using Cons.IH by (simp add: get_ai_summary_returns)
qed

lemma report_returns:
  assumes "results_file s = Json records"
    and "\<And>t p. \<exists>c. completion env t p = Inr c \<and> encodable (strip c)"
  shows "\<exists>r s'. report env s = (Inr r, s')"
proof -
  define blob where "blob = join (str ''\<newline>\<newline>'') (map source_block records)"
  show ?thesis
  proof (cases "length blob > CHUNK_SIZE")
    case False
    from assms(2) obtain a where "completion env (length (trace s)) (summary_prompt blob) = Inr a"
      and "encodable (strip a)" by blast
    then show ?thesis using False
      by (simp add: report_stored [OF assms(1)] blob_def [symmetric] get_ai_summary_returns
          write_report_encodable)
  next
    case True
    have "\<exists>c. completion env t p = Inr c" for t p using assms(2) [of t p] by blast
    from summarize_chunks_returns [of env, OF this] obtain out s1 where
      c: "summarize_chunks get_ai_summary env (chunks blob) [] s = (Inr out, s1)" by blast
    from assms(2) obtain a where
      "completion env (length (trace s1)) (summary_prompt (join (str ''\<newline>\<newline>'') out)) = Inr a"
      and "encodable (strip a)" by blast
    then show ?thesis using True c
      by (simp add: report_stored [OF assms(1)] blob_def [symmetric] get_ai_summary_returns
          write_report_encodable)
  qed
qed

lemma big_blob_length:
  "length (join (str ''\<newline>\<newline>'') (map source_block big_corpus)) = 300055"
  by (simp add: big_corpus_def source_block_def long_record_def length_str)

lemma big_chunks_length:
  "length (chunks (join (str ''\<newline>\<newline>'') (map source_block big_corpus))) = 2"
  by (simp add: length_chunks big_blob_length CHUNK_SIZE_value)

lemma demo_env_answers: "\<exists>c. completion demo_env t p = Inr c \<and> encodable (strip c)"
  by (simp add: demo_env_def strip_demo encodable_demo)

lemma get_querries_demo:
  "get_querries query_env (str ''solar'') demo_state =
     (Inr [str ''1. foo'', str ''bar''],
      demo_state\<lparr>trace := [Llm_request (query_prompt (str ''solar''))],
                  queries_file := Json [str ''1. foo'', str ''bar'']\<rparr>)"
  by (simp add: get_querries_def query_env_def demo_state_def emit_def Let_def
      strip_def lstrip_def rstrip_def str_def isspace_def)

lemma get_ai_summary_Inr:
  assumes "get_ai_summary env text s = (Inr r, s')"
  shows "\<exists>answer. completion env (length (trace s)) (summary_prompt text) = Inr answer
           \<and> r = strip answer"
  using assms by (auto simp: get_ai_summary_def Let_def split: sum.splits)

lemma summarize_chunks_answers:
  "summarize_chunks get_ai_summary env cs sums s = (Inr out, s') \<Longrightarrow>
     \<exists>new. out = sums @ new \<and> length new = length cs
       \<and> (\<forall>k < length cs. \<exists>answer.
              completion env (length (trace s) + k) (summary_prompt (cs ! k)) = Inr answer
              \<and> new ! k = strip answer)"
proof (induction cs arbitrary: sums s)
  case Nil
  then show ?case by simp
next
  case (Cons c cs)
  obtain res s1 where g: "get_ai_summary env c s = (res, s1)" by (cases "get_ai_summary env c s")
  then have s1: "s1 = emit (Llm_request (summary_prompt c)) s" by (rule get_ai_summary_effect)
  from Cons.prems g obtain r where r: "res = Inr r"
    and rest: "summarize_chunks get_ai_summary env cs (sums @ [r]) s1 = (Inr out, s')"
    by (cases res) auto
  from get_ai_summary_Inr [OF g [unfolded r]] obtain a where
    a: "completion env (length (trace s)) (summary_prompt c) = Inr a" and ra: "r = strip a"
    by blast
  from Cons.IH [OF rest] obtain new where
    o: "out = (sums @ [r]) @ new" and l: "length new = length cs"
    and n: "\<forall>k < length cs. \<exists>answer.
              completion env (length (trace s1) + k) (summary_prompt (cs ! k)) = Inr answer
              \<and> new ! k = strip answer"
    by blast
  have t: "length (trace s1) = Suc (length (trace s))" by (simp add: s1 emit_def)
  have "\<forall>k < length (c # cs). \<exists>answer.
              completion env (length (trace s) + k) (summary_prompt ((c # cs) ! k)) = Inr answer
              \<and> (r # new) ! k = strip answer"
  proof (intro allI impI)
    fix k
    assume k: "k < length (c # cs)"
    show "\<exists>answer. completion env (length (trace s) + k) (summary_prompt ((c # cs) ! k)) = Inr answer
              \<and> (r # new) ! k = strip answer"
    proof (cases k)
      case 0
      with a ra show ?thesis by simp
    next
      case (Suc j)
      with k have "j < length cs" by simp
      with n obtain answer where
        "completion env (length (trace s1) + j) (summary_prompt (cs ! j)) = Inr answer"
        and "new ! j = strip answer" by blast
      with Suc t show ?thesis by simp
    qed
  qed
  with o l have "out = sums @ (r # new) \<and> length (r # new) = length (c # cs)
       \<and> (\<forall>k < length (c # cs). \<exists>answer.
              completion env (length (trace s) + k) (summary_prompt ((c # cs) ! k)) = Inr answer
              \<and> (r # new) ! k = strip answer)"
    by simp
  then show ?case by blast
qed

lemma report_answers:
  fixes records :: "extraction_record list"
  defines "blob \<equiv> join (str ''\<newline>\<newline>'') (map source_block records)"
  assumes "results_file s = Json records" and "report env s = (Inr r, s')"
  shows "if length blob > CHUNK_SIZE
         then \<exists>summaries. length summaries = length (chunks blob)
                \<and> (\<forall>k < length (chunks blob). \<exists>answer.
                      completion env (length (trace s) + k) (summary_prompt (chunks blob ! k))
                        = Inr answer
                      \<and> summaries ! k = strip answer)
                \<and> new_events s s' = map (\<lambda>c. Llm_request (summary_prompt c))
                      (chunks blob @ [join (str ''\<newline>\<newline>'') summaries])
                \<and> (\<exists>answer. completion env (length (trace s) + length (chunks blob))
                        (summary_prompt (join (str ''\<newline>\<newline>'') summaries)) = Inr answer
                      \<and> r = strip answer)
         else new_events s s' = [Llm_request (summary_prompt blob)]
                \<and> (\<exists>answer. completion env (length (trace s)) (summary_prompt blob) = Inr answer
                      \<and> r = strip answer)"
proof (cases "length blob > CHUNK_SIZE")
  case False
  obtain res s2 where g: "get_ai_summary env blob s = (res, s2)"
    by (cases "get_ai_summary env blob s")
  have s2: "s2 = emit (Llm_request (summary_prompt blob)) s"
    using g by (rule get_ai_summary_effect)
  from assms(3) g False have rr: "res = Inr r" and s': "s' = s2\<lparr>report_file := Some r\<rparr>"
    by (auto simp: report_stored [OF assms(2)] blob_def [symmetric] split: sum.splits
        dest: write_report_Inr)
  from get_ai_summary_Inr [OF g [unfolded rr]] have
    "\<exists>answer. completion env (length (trace s)) (summary_prompt blob) = Inr answer
        \<and> r = strip answer" .
  moreover have "new_events s s' = [Llm_request (summary_prompt blob)]"
    by (simp add: s' s2 emit_def new_events_def)
  ultimately show ?thesis using False by simp
next
  case True
  obtain res1 s1 where c: "summarize_chunks get_ai_summary env (chunks blob) [] s = (res1, s1)"
    by (cases "summarize_chunks get_ai_summary env (chunks blob) [] s")
  from assms(3) True c obtain summaries where r1: "res1 = Inr summaries"
    by (cases res1) (auto simp: report_stored [OF assms(2)] blob_def [symmetric])
  obtain res2 s2 where g: "get_ai_summary env (join (str ''\<newline>\<newline>'') summaries) s1 = (res2, s2)"
    by (cases "get_ai_summary env (join (str ''\<newline>\<newline>'') summaries) s1")
  have s2: "s2 = emit (Llm_request (summary_prompt (join (str ''\<newline>\<newline>'') summaries))) s1"
    using g by (rule get_ai_summary_effect)
  from summarize_chunks_effect [OF c [unfolded r1]]
  have s1: "s1 = s\<lparr>trace := trace s @ map (\<lambda>c. Llm_request (summary_prompt c)) (chunks blob)\<rparr>"
    by simp
  from summarize_chunks_answers [OF c [unfolded r1]]
  have len: "length summaries = length (chunks blob)"
    and ans: "\<forall>k < length (chunks blob). \<exists>answer.
                completion env (length (trace s) + k) (summary_prompt (chunks blob ! k))
                  = Inr answer
                \<and> summaries ! k = strip answer"
    by auto
  from assms(3) True c r1 g have rr: "res2 = Inr r" and s': "s' = s2\<lparr>report_file := Some r\<rparr>"
    by (auto simp: report_stored [OF assms(2)] blob_def [symmetric] split: sum.splits
        dest: write_report_Inr)
  have t1: "length (trace s1) = length (trace s) + length (chunks blob)" by (simp add: s1)
  from get_ai_summary_Inr [OF g [unfolded rr]] t1 have
    fin: "\<exists>answer. completion env (length (trace s) + length (chunks blob))
                        (summary_prompt (join (str ''\<newline>\<newline>'') summaries)) = Inr answer
                      \<and> r = strip answer" by simp
  have ev: "new_events s s' = map (\<lambda>c. Llm_request (summary_prompt c))
                      (chunks blob @ [join (str ''\<newline>\<newline>'') summaries])"
    by (simp add: s' s2 s1 emit_def new_events_def)
  from len ans ev fin have "\<exists>summaries. length summaries = length (chunks blob)
                \<and> (\<forall>k < length (chunks blob). \<exists>answer.
                      completion env (length (trace s) + k) (summary_prompt (chunks blob ! k))
                        = Inr answer
                      \<and> summaries ! k = strip answer)
                \<and> new_events s s' = map (\<lambda>c. Llm_request (summary_prompt c))
                      (chunks blob @ [join (str ''\<newline>\<newline>'') summaries])
                \<and> (\<exists>answer. completion env (length (trace s) + length (chunks blob))
                        (summary_prompt (join (str ''\<newline>\<newline>'') summaries)) = Inr answer
                      \<and> r = strip answer)"
    by blast
  with True show ?thesis by simp
qed

lemma list_of_two: "length xs = 2 \<Longrightarrow> xs = [xs ! 0, xs ! 1]"
  by (cases xs; cases "tl xs") auto

lemma demo_env_answer: "completion demo_env t p = Inr answer \<Longrightarrow> strip answer = str ''Summary''"
  by (auto simp: demo_env_def strip_demo)

text \<open>
  C1. A \<open>report\<close> call of the Brave variant that returns on a stored corpus makes exactly one
  summarization request when the blob has at most 250,000 characters: the request carries
  the blob and the call returns the stripped answer. Otherwise it makes one request per
  chunk, \<open>\<lceil>len / 250000\<rceil>\<close> of them, plus exactly one more: that last request carries the
  stripped answers to the chunk requests, in chunk order, joined by blank lines, whatever
  the length of this combined summary, nothing is chunked again, and the call returns the
  stripped answer to it.
\<close>

theorem report_summarization_calls:
  fixes records :: "extraction_record list"
  defines "blob \<equiv> join (str ''\<newline>\<newline>'') (map source_block records)"
  assumes "results_file s = Json records" and "report env s = (Inr r, s')"
  shows "length (llm_prompts (new_events s s')) =
           (if length blob \<le> 250000 then 1 else (length blob + 250000 - 1) div 250000 + 1)
         \<and> (length blob \<le> 250000 \<longrightarrow>
              llm_prompts (new_events s s') = [summary_prompt blob]
              \<and> (\<exists>answer. completion env (length (trace s)) (summary_prompt blob) = Inr answer
                    \<and> r = strip answer))
         \<and> (250000 < length blob \<longrightarrow>
              (\<exists>summaries. length summaries = length (chunks blob)
                 \<and> (\<forall>k < length (chunks blob). \<exists>answer.
                       completion env (length (trace s) + k) (summary_prompt (chunks blob ! k))
                         = Inr answer
                       \<and> summaries ! k = strip answer)
                 \<and> llm_prompts (new_events s s') =
                     map summary_prompt (chunks blob)
                     @ [summary_prompt (join (str ''\<newline>\<newline>'') summaries)]
                 \<and> (\<exists>answer. completion env (length (trace s) + length (chunks blob))
                         (summary_prompt (join (str ''\<newline>\<newline>'') summaries)) = Inr answer
                       \<and> r = strip answer)))"
proof (cases "length blob > CHUNK_SIZE")
  case False
  with report_answers [OF assms(2,3)] have
    ev: "new_events s s' = [Llm_request (summary_prompt blob)]"
    and an: "\<exists>answer. completion env (length (trace s)) (summary_prompt blob) = Inr answer
                    \<and> r = strip answer"
    by (simp_all add: blob_def)
  from ev have "llm_prompts (new_events s s') = [summary_prompt blob]" by simp
  with an False show ?thesis by (simp add: CHUNK_SIZE_value)
next
  case True
  with report_answers [OF assms(2,3)] obtain summaries where
    len: "length summaries = length (chunks blob)"
    and ans: "\<forall>k < length (chunks blob). \<exists>answer.
                completion env (length (trace s) + k) (summary_prompt (chunks blob ! k))
                  = Inr answer
                \<and> summaries ! k = strip answer"
    and ev: "new_events s s' = map (\<lambda>c. Llm_request (summary_prompt c))
                      (chunks blob @ [join (str ''\<newline>\<newline>'') summaries])"
    and fin: "\<exists>answer. completion env (length (trace s) + length (chunks blob))
                        (summary_prompt (join (str ''\<newline>\<newline>'') summaries)) = Inr answer
                      \<and> r = strip answer"
    unfolding blob_def by auto
  have pr: "llm_prompts (new_events s s') =
      map summary_prompt (chunks blob) @ [summary_prompt (join (str ''\<newline>\<newline>'') summaries)]"
    using llm_prompts_requests
      [of "map summary_prompt (chunks blob @ [join (str ''\<newline>\<newline>'') summaries])"]
    by (simp add: ev comp_def)
  then have cnt: "length (llm_prompts (new_events s s')) = (length blob + 250000 - 1) div 250000 + 1"
    by (simp add: length_chunks CHUNK_SIZE_value)
  have ex: "\<exists>summaries. length summaries = length (chunks blob)
                 \<and> (\<forall>k < length (chunks blob). \<exists>answer.
                       completion env (length (trace s) + k) (summary_prompt (chunks blob ! k))
                         = Inr answer
                       \<and> summaries ! k = strip answer)
                 \<and> llm_prompts (new_events s s') =
                     map summary_prompt (chunks blob)
                     @ [summary_prompt (join (str ''\<newline>\<newline>'') summaries)]
                 \<and> (\<exists>answer. completion env (length (trace s) + length (chunks blob))
                         (summary_prompt (join (str ''\<newline>\<newline>'') summaries)) = Inr answer
                       \<and> r = strip answer)"
    using len ans pr fin by blast
  from True have big: "250000 < length blob" by (simp add: CHUNK_SIZE_value)
  then have n: "\<not> length blob \<le> 250000" by simp
  from cnt ex big n show ?thesis by simp
qed

theorem report_summarization_calls_witness:
  "(results_file demo_state = Json [demo_record]
    \<and> report demo_env demo_state =
        (Inr (str ''Summary''),
         demo_state\<lparr>trace := [Llm_request (summary_prompt (source_block demo_record))],
                     report_file := Some (str ''Summary'')\<rparr>)
    \<and> length (llm_prompts (new_events demo_state
         (demo_state\<lparr>trace := [Llm_request (summary_prompt (source_block demo_record))],
                     report_file := Some (str ''Summary'')\<rparr>))) = 1)
   \<and> (results_file big_state = Json big_corpus
    \<and> (\<exists>r s'. report demo_env big_state = (Inr r, s')
          \<and> length (llm_prompts (new_events big_state s')) = 3
          \<and> last (llm_prompts (new_events big_state s')) =
              summary_prompt (join (str ''\<newline>\<newline>'') [str ''Summary'', str ''Summary''])
          \<and> r = str ''Summary''))"
proof -
  have h1: "results_file demo_state = Json [demo_record]" by (simp add: demo_state_def)
  have small: "length (join (str ''\<newline>\<newline>'') (map source_block [demo_record])) \<le> 250000"
    by (simp add: source_block_def demo_record_def length_str)
  from report_summarization_calls [OF h1 report_demo] small
  have "length (llm_prompts (new_events demo_state
         (demo_state\<lparr>trace := [Llm_request (summary_prompt (source_block demo_record))],
                     report_file := Some (str ''Summary'')\<rparr>))) = 1"
    by simp
  with h1 report_demo have first: "results_file demo_state = Json [demo_record]
    \<and> report demo_env demo_state =
        (Inr (str ''Summary''),
         demo_state\<lparr>trace := [Llm_request (summary_prompt (source_block demo_record))],
                     report_file := Some (str ''Summary'')\<rparr>)
    \<and> length (llm_prompts (new_events demo_state
         (demo_state\<lparr>trace := [Llm_request (summary_prompt (source_block demo_record))],
                     report_file := Some (str ''Summary'')\<rparr>))) = 1"
    by simp
  define blob where "blob = join (str ''\<newline>\<newline>'') (map source_block big_corpus)"
  have b1: "results_file big_state = Json big_corpus" by (simp add: big_state_def)
  from report_returns [OF b1 demo_env_answers] obtain r s' where
    b2: "report demo_env big_state = (Inr r, s')" by blast
  have big: "250000 < length blob" unfolding blob_def big_blob_length by simp
  note t = report_summarization_calls [OF b1 b2, folded blob_def]
  from t big have cnt: "length (llm_prompts (new_events big_state s')) = 3"
    unfolding blob_def big_blob_length by simp
  from t big obtain summaries where
    len: "length summaries = length (chunks blob)"
    and ans: "\<forall>k < length (chunks blob). \<exists>answer.
                completion demo_env (length (trace big_state) + k) (summary_prompt (chunks blob ! k))
                  = Inr answer
                \<and> summaries ! k = strip answer"
    and pr: "llm_prompts (new_events big_state s') =
        map summary_prompt (chunks blob) @ [summary_prompt (join (str ''\<newline>\<newline>'') summaries)]"
    and fin: "\<exists>answer. completion demo_env (length (trace big_state) + length (chunks blob))
                 (summary_prompt (join (str ''\<newline>\<newline>'') summaries)) = Inr answer
               \<and> r = strip answer"
    by blast
  have two: "length (chunks blob) = 2" unfolding blob_def by (rule big_chunks_length)
  from ans two have "summaries ! 0 = str ''Summary''" "summaries ! 1 = str ''Summary''"
    using demo_env_answer by (metis zero_less_numeral, metis one_less_numeral_iff semiring_norm(76))
  with list_of_two [of summaries] len two
  have su: "summaries = [str ''Summary'', str ''Summary'']" by simp
  from pr have lst: "last (llm_prompts (new_events big_state s')) =
      summary_prompt (join (str ''\<newline>\<newline>'') [str ''Summary'', str ''Summary''])"
    unfolding su by simp
  from fin have rr: "r = str ''Summary''" using demo_env_answer by blast
  from b1 b2 cnt lst rr first show ?thesis by blast
qed

text \<open>
  C7. On a stored, non-empty corpus the blob of \<open>report\<close> is the blocks
  \<open>"Source: {url}\n{text}"\<close> of the records, in corpus order, with \<open>"\n\n"\<close> between
  consecutive blocks (the blob followed by one more separator is every block followed by
  the separator). A blob of at most 250,000 characters is what the one request carries.
  A longer blob is sent chunk by chunk; the chunks concatenate to the blob, chunk \<open>k\<close> is the
  slice of 250,000 characters from position \<open>250000 * k\<close>, every chunk but the last has
  exactly 250,000 characters, and the last has between 1 and 250,000.
\<close>

theorem report_blob_and_chunks:
  fixes records :: "extraction_record list"
  defines "blob \<equiv> join (str ''\<newline>\<newline>'') (map source_block records)"
  assumes "results_file s = Json records" and "records \<noteq> []"
    and "report env s = (Inr r, s')"
  shows "blob @ str ''\<newline>\<newline>'' =
           concat (map (\<lambda>res. str ''Source: '' @ rec_url res @ str ''\<newline>'' @ rec_text res
                                 @ str ''\<newline>\<newline>'') records)
         \<and> (length blob \<le> 250000 \<longrightarrow> llm_prompts (new_events s s') = [summary_prompt blob])
         \<and> (250000 < length blob \<longrightarrow>
               butlast (llm_prompts (new_events s s')) = map summary_prompt (chunks blob))
         \<and> concat (chunks blob) = blob
         \<and> (\<forall>k < length (chunks blob). chunks blob ! k = take 250000 (drop (k * 250000) blob))
         \<and> (\<forall>k. Suc k < length (chunks blob) \<longrightarrow> length (chunks blob ! k) = 250000)
         \<and> 0 < length (last (chunks blob)) \<and> length (last (chunks blob)) \<le> 250000"
proof -
  have sep: "blob @ str ''\<newline>\<newline>'' =
           concat (map (\<lambda>res. str ''Source: '' @ rec_url res @ str ''\<newline>'' @ rec_text res
                                 @ str ''\<newline>\<newline>'') records)"
    using join_concat [of "map source_block records" "str ''\<newline>\<newline>''"] assms(3)
    by (simp add: blob_def comp_def source_block_def)
  from report_success [OF assms(2,4)] obtain texts where
    ev: "new_events s s' = map (\<lambda>c. Llm_request (summary_prompt c)) texts"
    and tx: "if length blob > CHUNK_SIZE
             then \<exists>summaries. length summaries = length (chunks blob)
                    \<and> texts = chunks blob @ [join (str ''\<newline>\<newline>'') summaries]
             else texts = [blob]"
    unfolding blob_def by blast
  have pr: "llm_prompts (new_events s s') = map summary_prompt texts"
    using llm_prompts_requests [of "map summary_prompt texts"] by (simp add: ev comp_def)
  have small: "length blob \<le> 250000 \<longrightarrow> llm_prompts (new_events s s') = [summary_prompt blob]"
    using tx pr by (auto simp: CHUNK_SIZE_value)
  have big: "250000 < length blob \<longrightarrow>
               butlast (llm_prompts (new_events s s')) = map summary_prompt (chunks blob)"
    using tx pr by (auto simp: CHUNK_SIZE_value)
  have "blob \<noteq> []"
    using assms(3) by (cases records) (auto simp: blob_def source_block_def str_def intro!: join_nonempty)
  then have ne: "chunks blob \<noteq> []" by (rule chunks_nonempty)
  then have lst: "last (chunks blob) = chunks blob ! (length (chunks blob) - 1)"
    by (rule last_conv_nth)
  have l: "0 < length (last (chunks blob)) \<and> length (last (chunks blob)) \<le> 250000"
    using chunk_last_length [of "length (chunks blob) - 1" blob] ne lst
    by (simp add: CHUNK_SIZE_value)
  have n: "\<forall>k < length (chunks blob). chunks blob ! k = take 250000 (drop (k * 250000) blob)"
    using chunks_nth [of _ blob] by (simp add: CHUNK_SIZE_value)
  have i: "\<forall>k. Suc k < length (chunks blob) \<longrightarrow> length (chunks blob ! k) = 250000"
    using chunk_inner_length [of _ blob] by (simp add: CHUNK_SIZE_value)
  show ?thesis using sep small big concat_chunks [of blob] n i l by blast
qed

theorem report_blob_and_chunks_witness:
  "results_file big_state = Json big_corpus \<and> big_corpus \<noteq> []
   \<and> 250000 < length (join (str ''\<newline>\<newline>'') (map source_block big_corpus))
   \<and> (\<exists>r s'. report demo_env big_state = (Inr r, s')
        \<and> butlast (llm_prompts (new_events big_state s')) =
            map summary_prompt (chunks (join (str ''\<newline>\<newline>'') (map source_block big_corpus)))
        \<and> length (chunks (join (str ''\<newline>\<newline>'') (map source_block big_corpus)) ! 0) = 250000)"
proof -
  have b1: "results_file big_state = Json big_corpus" by (simp add: big_state_def)
  have ne: "big_corpus \<noteq> []" by (simp add: big_corpus_def)
  have big: "250000 < length (join (str ''\<newline>\<newline>'') (map source_block big_corpus))"
    unfolding big_blob_length by simp
  have two: "Suc 0 < length (chunks (join (str ''\<newline>\<newline>'') (map source_block big_corpus)))"
    unfolding big_chunks_length by simp
  from report_returns [OF b1 demo_env_answers] obtain r s' where
    b2: "report demo_env big_state = (Inr r, s')" by blast
  from report_blob_and_chunks [OF b1 ne b2] big two b1 ne b2 show ?thesis by blast
qed

text \<open>
  C10. What a call returns is what it persisted: after \<open>get_querries\<close> returns, the query
  file holds exactly the returned list; after \<open>report\<close> returns on a stored corpus, the
  report file holds exactly the returned text.
\<close>

theorem returned_value_is_persisted:
  "(get_querries env theme s = (Inr queries, s') \<longrightarrow> queries_file s' = Json queries)
   \<and> (results_file s = Json records \<and> report env s = (Inr r, s'') \<longrightarrow> report_file s'' = Some r)"
proof (intro conjI impI)
  assume "get_querries env theme s = (Inr queries, s')"
  then show "queries_file s' = Json queries"
    by (auto simp: get_querries_def Let_def split: sum.splits)
next
  assume "results_file s = Json records \<and> report env s = (Inr r, s'')"
  then show "report_file s'' = Some r"
    using report_success [of s records env r s''] by auto
qed

theorem returned_value_is_persisted_witness:
  "get_querries query_env (str ''solar'') demo_state =
     (Inr [str ''1. foo'', str ''bar''],
      demo_state\<lparr>trace := [Llm_request (query_prompt (str ''solar''))],
                  queries_file := Json [str ''1. foo'', str ''bar'']\<rparr>)
   \<and> queries_file (demo_state\<lparr>trace := [Llm_request (query_prompt (str ''solar''))],
                  queries_file := Json [str ''1. foo'', str ''bar'']\<rparr>)
       = Json [str ''1. foo'', str ''bar'']
   \<and> results_file demo_state = Json [demo_record]
   \<and> report demo_env demo_state =
       (Inr (str ''Summary''),
        demo_state\<lparr>trace := [Llm_request (summary_prompt (source_block demo_record))],
                    report_file := Some (str ''Summary'')\<rparr>)
   \<and> report_file (demo_state\<lparr>trace := [Llm_request (summary_prompt (source_block demo_record))],
                    report_file := Some (str ''Summary'')\<rparr>) = Some (str ''Summary'')"
proof -
  have h1: "results_file demo_state = Json [demo_record]" by (simp add: demo_state_def)
  from returned_value_is_persisted [of query_env "str ''solar''" demo_state
      "[str ''1. foo'', str ''bar'']" _ "[demo_record]" _ _]
    returned_value_is_persisted [of demo_env _ demo_state _ _ "[demo_record]" "str ''Summary''" _]
    get_querries_demo report_demo h1
  show ?thesis by simp
qed

text \<open>
  C2. With the results file absent or of zero bytes, \<open>report\<close> returns the sentinel, makes
  no request and writes nothing (\<open>report_no_storage\<close>). With the results file holding the
  empty list, the state \<open>__init__\<close> creates, the corpus is empty but \<open>report\<close> does not
  return the sentinel: it requests a summary of the empty blob and writes the answer to
  the report file.
\<close>

theorem report_on_empty_corpus:
  "results_file fresh_state = Json [] \<and> corpus fresh_state = []
   \<and> report demo_env fresh_state =
       (Inr (str ''Summary''),
        fresh_state\<lparr>trace := [Llm_request (summary_prompt [])],
                     report_file := Some (str ''Summary'')\<rparr>)"
proof -
  have f: "results_file fresh_state = Json []"
    by (simp add: fresh_state_def init_def path_exists_def)
  have t: "trace fresh_state = []" by (simp add: fresh_state_def init_def)
  have "report demo_env fresh_state =
       (Inr (str ''Summary''),
        fresh_state\<lparr>trace := [Llm_request (summary_prompt [])],
                     report_file := Some (str ''Summary'')\<rparr>)"
    by (simp add: report_stored [OF f] get_ai_summary_def demo_env_def emit_def t strip_demo
        CHUNK_SIZE_value write_report_encodable [OF encodable_demo])
  with f show ?thesis by (simp add: corpus_def)
qed


section \<open>Properties of the query generator\<close>

lemma split_on_nonempty: "split_on c s \<noteq> []"
  by (induction s) auto

lemma split_on_hd_tl: "hd (split_on c s) # tl (split_on c s) = split_on c s"
  using split_on_nonempty [of c s] by simp

lemma lstrip_space: "isspace x \<Longrightarrow> lstrip (x # s) = lstrip s"
  by (simp add: lstrip_def)

lemma rstrip_snoc: "rstrip (s @ [x]) = (if isspace x then rstrip s else s @ [x])"
  by (simp add: rstrip_def)

lemma rstrip_Cons:
  "rstrip (x # s) =
     (if list_all isspace s then (if isspace x then [] else [x]) else x # rstrip s)"
  by (induction s rule: rev_induct) (auto simp: rstrip_def list_all_iff)

lemma lstrip_all_space: "list_all isspace s \<Longrightarrow> lstrip s = []"
  by (simp add: lstrip_def list_all_iff)

lemma strip_commute: "rstrip (lstrip s) = lstrip (rstrip s)"
proof (induction s)
  case Nil
  show ?case by (simp add: lstrip_def rstrip_def)
next
  case (Cons x s)
  show ?case
  proof (cases "isspace x")
    case True
    show ?thesis
    proof (cases "list_all isspace s")
      case True
      with \<open>isspace x\<close> show ?thesis
        by (simp add: rstrip_Cons lstrip_space lstrip_all_space) (simp add: lstrip_def rstrip_def)
    next
      case False
      with \<open>isspace x\<close> Cons.IH show ?thesis by (simp add: rstrip_Cons lstrip_space)
    qed
  next
    case False
    then show ?thesis by (simp add: rstrip_Cons lstrip_def)
  qed
qed

lemma strip_space_Cons: "isspace x \<Longrightarrow> strip (x # s) = strip s"
  by (simp add: strip_def lstrip_space)

lemma strip_space_snoc: "isspace x \<Longrightarrow> strip (s @ [x]) = strip s"
  by (simp add: strip_def strip_commute rstrip_snoc)

lemma strip_Nil: "strip [] = []"
  by (simp add: strip_def lstrip_def rstrip_def)

lemma lines_space_Cons:
  assumes "isspace x"
  shows "lines_trimmed_nonblank (x # s) = lines_trimmed_nonblank s"
proof (cases "x = of_char (CHR 0x0A)")
  case True
  then show ?thesis by (simp add: lines_trimmed_nonblank_def strip_Nil)
next
  case False
  have "map strip (split_on (of_char (CHR 0x0A)) (x # s))
      = strip (hd (split_on (of_char (CHR 0x0A)) s)) # map strip (tl (split_on (of_char (CHR 0x0A)) s))"
    using False assms by (simp add: strip_space_Cons)
  also have "\<dots> = map strip (hd (split_on (of_char (CHR 0x0A)) s) # tl (split_on (of_char (CHR 0x0A)) s))"
    by simp
  finally show ?thesis unfolding split_on_hd_tl by (simp add: lines_trimmed_nonblank_def)
qed

lemma split_on_snoc:
  "split_on c (s @ [x]) =
     (if x = c then split_on c s @ [[]]
      else butlast (split_on c s) @ [last (split_on c s) @ [x]])"
proof (induction s)
  case Nil
  show ?case by simp
next
  case (Cons y s)
  obtain l ls where r: "split_on c s = l # ls"
    using split_on_nonempty [of c s] by (cases "split_on c s") auto
  show ?case using Cons.IH by (cases "ls = []") (auto simp: r)
qed

lemma lines_space_snoc:
  assumes "isspace x"
  shows "lines_trimmed_nonblank (s @ [x]) = lines_trimmed_nonblank s"
proof (cases "x = of_char (CHR 0x0A)")
  case True
  then show ?thesis by (simp add: lines_trimmed_nonblank_def split_on_snoc strip_Nil)
next
  case False
  have ne: "split_on (of_char (CHR 0x0A)) s \<noteq> []" by (rule split_on_nonempty)
  have "map strip (split_on (of_char (CHR 0x0A)) (s @ [x]))
      = map strip (butlast (split_on (of_char (CHR 0x0A)) s) @ [last (split_on (of_char (CHR 0x0A)) s)])"
    using False assms by (simp add: split_on_snoc strip_space_snoc)
  also have "\<dots> = map strip (split_on (of_char (CHR 0x0A)) s)"
    using append_butlast_last_id [OF ne] by simp
  finally show ?thesis by (simp add: lines_trimmed_nonblank_def)
qed

lemma lines_lstrip: "lines_trimmed_nonblank (lstrip s) = lines_trimmed_nonblank s"
  by (induction s) (auto simp: lstrip_def lines_space_Cons)

lemma lines_rstrip: "lines_trimmed_nonblank (rstrip s) = lines_trimmed_nonblank s"
  by (induction s rule: rev_induct) (auto simp: rstrip_snoc lines_space_snoc rstrip_def)

lemma lines_strip: "lines_trimmed_nonblank (strip s) = lines_trimmed_nonblank s"
  by (simp add: strip_def lines_rstrip lines_lstrip)

lemma comprehension_eq:
  "[strip q. q \<leftarrow> xs, strip q \<noteq> []] = filter (\<lambda>line. line \<noteq> []) (map strip xs)"
  by (induction xs) auto

lemma strip_not_blank: "strip s \<noteq> [] \<Longrightarrow> \<not> blank (strip s)"
proof -
  assume a: "strip s \<noteq> []"
  have "strip s = lstrip (rstrip s)" by (simp add: strip_def strip_commute)
  then have "strip s = dropWhile isspace (rstrip s)" by (simp add: lstrip_def)
  with a have "\<not> isspace (hd (strip s))" by (metis hd_dropWhile)
  with a show ?thesis by (cases "strip s") (auto simp: blank_def)
qed

lemma strip_idem: "strip (strip s) = strip s"
proof -
  have l: "lstrip (lstrip t) = lstrip t" for t
    by (simp add: lstrip_def)
  have r: "rstrip (rstrip t) = rstrip t" for t
    by (simp add: rstrip_def)
  have "strip (strip s) = rstrip (lstrip (rstrip (lstrip s)))" by (simp add: strip_def)
  also have "\<dots> = rstrip (rstrip (lstrip (lstrip s)))"
    by (simp add: strip_commute [of "lstrip s"])
  finally show ?thesis by (simp add: l r strip_def)
qed

text \<open>
  C5. The list \<open>get_querries\<close> returns is the model's response split at newlines, each
  line trimmed, blank lines discarded; no entry is empty or whitespace-only and every
  entry is trimmed; and the query file afterwards holds exactly this list, whatever it
  held before.
\<close>

theorem get_querries_lines:
  assumes "get_querries env theme s = (Inr queries, s')"
  shows "(\<exists>content. completion env (length (trace s)) (query_prompt theme) = Inr content
            \<and> queries = lines_trimmed_nonblank content)
         \<and> list_all (\<lambda>q. q \<noteq> [] \<and> \<not> blank q \<and> strip q = q) queries
         \<and> queries_file s' = Json queries"
proof -
  from assms obtain content where
    c: "completion env (length (trace s)) (query_prompt theme) = Inr content"
    and q: "queries = [strip q. q \<leftarrow> split_on (of_char (CHR 0x0A)) (strip content), strip q \<noteq> []]"
    and f: "queries_file s' = Json queries"
    by (auto simp: get_querries_def Let_def split: sum.splits)
  have eq: "queries = lines_trimmed_nonblank content"
    unfolding q comprehension_eq
    using lines_strip [of content] by (simp add: lines_trimmed_nonblank_def)
  have "list_all (\<lambda>q. q \<noteq> [] \<and> \<not> blank q \<and> strip q = q) queries"
    unfolding eq lines_trimmed_nonblank_def list_all_iff
    using strip_not_blank strip_idem by auto
  with c eq f show ?thesis by blast
qed

theorem get_querries_lines_witness:
  "get_querries query_env (str ''solar'') (demo_state\<lparr>queries_file := Json [str ''old query'']\<rparr>) =
     (Inr [str ''1. foo'', str ''bar''],
      demo_state\<lparr>trace := [Llm_request (query_prompt (str ''solar''))],
                  queries_file := Json [str ''1. foo'', str ''bar'']\<rparr>)
   \<and> [str ''1. foo'', str ''bar''] = lines_trimmed_nonblank (str '' 1. foo \<newline>\<newline>  bar\<newline> '')
   \<and> queries_file (demo_state\<lparr>trace := [Llm_request (query_prompt (str ''solar''))],
                  queries_file := Json [str ''1. foo'', str ''bar'']\<rparr>)
       = Json [str ''1. foo'', str ''bar'']"
proof -
  have run: "get_querries query_env (str ''solar'')
       (demo_state\<lparr>queries_file := Json [str ''old query'']\<rparr>) =
     (Inr [str ''1. foo'', str ''bar''],
      demo_state\<lparr>trace := [Llm_request (query_prompt (str ''solar''))],
                  queries_file := Json [str ''1. foo'', str ''bar'']\<rparr>)"
    by (simp add: get_querries_def query_env_def demo_state_def emit_def Let_def
        strip_def lstrip_def rstrip_def str_def isspace_def)
  have ans: "completion query_env t p = Inr (str '' 1. foo \<newline>\<newline>  bar\<newline> '')" for t p
    by (simp add: query_env_def)
  from get_querries_lines [OF run] run ans show ?thesis by auto
qed

section \<open>Properties of search\<close>

lemma process_page_cases:
  "(\<exists>e. fetch_page env (length (trace s)) url = Inl e
        \<and> process_page env res url results s = (Inl e, emit (Page_fetch url) s))
   \<or> (\<exists>sp. fetch_page env (length (trace s)) url = Inr sp
        \<and> process_page env res url results s =
            (Inr (results @ [\<lparr>rec_url = url, rec_title = resolve_title res sp,
                               rec_text = take 100000 (extract_text sp)\<rparr>]),
             emit (Sleep 1) (emit (Page_fetch url) s)))"
  by (cases "fetch_page env (length (trace s)) url") (simp_all add: process_page_def Let_def)

lemma emit_files [simp]:
  "results_file (emit e s) = results_file s"
  "queries_file (emit e s) = queries_file s"
  "report_file (emit e s) = report_file s"
  by (simp_all add: emit_def)

lemma brave_loop_results:
  "brave_loop env rs acc s = (r, s') \<Longrightarrow>
     results_file s' = results_file s
     \<and> (\<forall>out. r = Inr out \<longrightarrow>
          (\<exists>new. out = acc @ new
             \<and> subseq (map rec_url new) (map (\<lambda>res. dict_get res (str ''url'') []) rs)
             \<and> list_all (\<lambda>x. length (rec_text x) \<le> 100000
                             \<and> (\<exists>t sp. fetch_page env t (rec_url x) = Inr sp)) new))"
proof (induction rs arbitrary: acc s)
  case Nil
  then show ?case by auto
next
  case (Cons res rest)
  show ?case
  proof (cases "res (str ''url'')")
    case None
    with Cons.prems show ?thesis by (auto simp: dict_item_def)
  next
    case (Some url)
    from process_page_cases [of env s url res acc] show ?thesis
    proof (elim disjE exE conjE)
      fix e
      assume p: "process_page env res url acc s = (Inl e, emit (Page_fetch url) s)"
      with Cons.prems Some have
        "brave_loop env rest acc (emit (Print_error url e) (emit (Page_fetch url) s)) = (r, s')"
        by (simp add: dict_item_def)
      from Cons.IH [OF this] show ?thesis
        by (auto simp: dict_get_def Some intro: subseq_Cons')
    next
      fix sp
      assume f: "fetch_page env (length (trace s)) url = Inr sp"
      assume p: "process_page env res url acc s =
            (Inr (acc @ [\<lparr>rec_url = url, rec_title = resolve_title res sp,
                               rec_text = take 100000 (extract_text sp)\<rparr>]),
             emit (Sleep 1) (emit (Page_fetch url) s))"
      with Cons.prems Some have
        "brave_loop env rest (acc @ [\<lparr>rec_url = url, rec_title = resolve_title res sp,
                               rec_text = take 100000 (extract_text sp)\<rparr>])
            (emit (Sleep 1) (emit (Page_fetch url) s)) = (r, s')"
        by (simp add: dict_item_def)
      moreover have "\<exists>t sp. fetch_page env t url = Inr sp" using f by blast
      ultimately show ?thesis using Cons.IH
        by (fastforce simp: dict_get_def Some)
    qed
  qed
qed

lemma serper_loop_results:
  "\<exists>out s'. serper_loop env rs acc s = (Inr out, s')
     \<and> results_file s' = results_file s
     \<and> (\<exists>new. out = acc @ new
           \<and> subseq (map rec_url new) (map (\<lambda>res. dict_get res (str ''link'') []) rs)
           \<and> list_all record_ok new)"
proof (induction rs arbitrary: acc s)
  case Nil
  show ?case by simp
next
  case (Cons res rest)
  define url where "url = dict_get res (str ''link'') []"
  show ?case
  proof (cases "url = []")
    case True
    with Cons.IH [of acc s] show ?thesis
      by (auto simp: url_def [symmetric] intro: subseq_Cons')
  next
    case False
    from process_page_cases [of env s url res acc] show ?thesis
    proof (elim disjE exE conjE)
      fix e
      assume p: "process_page env res url acc s = (Inl e, emit (Page_fetch url) s)"
      from Cons.IH [of acc "emit (Print_error url e) (emit (Page_fetch url) s)"] p False
      show ?thesis by (auto simp: url_def [symmetric] intro: subseq_Cons')
    next
      fix sp
      assume p: "process_page env res url acc s =
            (Inr (acc @ [\<lparr>rec_url = url, rec_title = resolve_title res sp,
                               rec_text = take 100000 (extract_text sp)\<rparr>]),
             emit (Sleep 1) (emit (Page_fetch url) s))"
      from Cons.IH [of "acc @ [\<lparr>rec_url = url, rec_title = resolve_title res sp,
                               rec_text = take 100000 (extract_text sp)\<rparr>]"
            "emit (Sleep 1) (emit (Page_fetch url) s)"] p False
      show ?thesis by (auto simp: url_def [symmetric] record_ok_def)
    qed
  qed
qed

lemma append_results_effect:
  "append_results results s = (Inr (), s\<lparr>results_file := Json (corpus s @ results)\<rparr>)"
  by (cases "results_file s")
     (simp_all add: append_results_def corpus_def path_exists_def getsize_is_zero_def json_load_def)

lemma corpus_emit: "corpus (emit e s) = corpus s"
  by (simp add: corpus_def)

lemma corpus_cong: "results_file s' = results_file s \<Longrightarrow> corpus s' = corpus s"
  by (simp add: corpus_def)

lemma search_shape:
  "(\<exists>e s1. search env query s = (Inl e, s1) \<and> results_file s1 = results_file s)
   \<or> (\<exists>response built s1.
          brave_search env (length (trace s)) query = Inr response
        \<and> brave_loop env (web_results response) [] (emit (Brave_request query) s) = (Inr built, s1)
        \<and> results_file s1 = results_file s
        \<and> subseq (map rec_url built)
             (map (\<lambda>res. dict_get res (str ''url'') []) (web_results response))
        \<and> list_all (\<lambda>x. length (rec_text x) \<le> 100000
                             \<and> (\<exists>t sp. fetch_page env t (rec_url x) = Inr sp)) built
        \<and> search env query s = (Inr (), s1\<lparr>results_file := Json (corpus s @ built)\<rparr>))"
proof (cases "brave_search env (length (trace s)) query")
  case (Inl e)
  then have "search env query s = (Inl e, emit (Brave_request query) s)"
    by (simp add: search_def Let_def)
  then show ?thesis by simp
next
  case (Inr response)
  define s0 where "s0 = emit (Brave_request query) s"
  obtain r s1 where l: "brave_loop env (web_results response) [] s0 = (r, s1)"
    by (cases "brave_loop env (web_results response) [] s0")
  have sr: "search env query s =
      (case r of Inl e \<Rightarrow> (Inl e, s1) | Inr results \<Rightarrow> append_results results s1)"
    using Inr l by (simp add: search_def Let_def s0_def [symmetric] split: sum.splits)
  from brave_loop_results [OF l] have f: "results_file s1 = results_file s"
    by (simp add: s0_def)
  show ?thesis
  proof (cases r)
    case (Inl e)
    with sr f show ?thesis by simp
  next
    case (Inr built)
    with brave_loop_results [OF l] have
      n: "subseq (map rec_url built)
             (map (\<lambda>res. dict_get res (str ''url'') []) (web_results response))"
      and b: "list_all (\<lambda>x. length (rec_text x) \<le> 100000
                             \<and> (\<exists>t sp. fetch_page env t (rec_url x) = Inr sp)) built"
      by simp_all
    have "search env query s = (Inr (), s1\<lparr>results_file := Json (corpus s @ built)\<rparr>)"
      using sr Inr by (simp add: append_results_effect corpus_cong [OF f])
    with \<open>brave_search env (length (trace s)) query = Inr response\<close> l Inr f n b
    show ?thesis unfolding s0_def by blast
  qed
qed


lemma search_serper_shape:
  "(\<exists>e. serper_search env (length (trace s)) query = Inl e
        \<and> search_serper env query s = (Inl e, emit (Serper_request query) s))
   \<or> (\<exists>response built s1.
          serper_search env (length (trace s)) query = Inr response
        \<and> serper_loop env (organic_results response) [] (emit (Serper_request query) s)
            = (Inr built, s1)
        \<and> results_file s1 = results_file s
        \<and> subseq (map rec_url built)
             (map (\<lambda>res. dict_get res (str ''link'') []) (organic_results response))
        \<and> list_all record_ok built
        \<and> search_serper env query s = (Inr (), s1\<lparr>results_file := Json (corpus s @ built)\<rparr>))"
proof (cases "serper_search env (length (trace s)) query")
  case (Inl e)
  then show ?thesis by (simp add: search_serper_def Let_def)
next
  case (Inr response)
  define s0 where "s0 = emit (Serper_request query) s"
  from serper_loop_results [of env "organic_results response" "[]" s0]
  obtain built s1 where l: "serper_loop env (organic_results response) [] s0 = (Inr built, s1)"
    and f: "results_file s1 = results_file s0"
    and n: "subseq (map rec_url built)
             (map (\<lambda>res. dict_get res (str ''link'') []) (organic_results response))"
    and b: "list_all record_ok built"
    by auto
  have f': "results_file s1 = results_file s" using f by (simp add: s0_def)
  have "search_serper env query s = (Inr (), s1\<lparr>results_file := Json (corpus s @ built)\<rparr>)"
    using Inr l by (simp add: search_serper_def Let_def s0_def [symmetric]
        append_results_effect corpus_cong [OF f'])
  with Inr l f' n b show ?thesis unfolding s0_def by blast
qed

lemma get_querries_results_file:
  "results_file (snd (get_querries env theme s)) = results_file s"
  by (simp add: get_querries_def Let_def split: sum.splits)

lemma summarize_chunks_results_file:
  assumes "\<And>text s. results_file (snd (summary env text s)) = results_file s"
  shows "results_file (snd (summarize_chunks summary env cs sums s)) = results_file s"
proof (induction cs arbitrary: sums s)
  case Nil
  show ?case by simp
next
  case (Cons c cs)
  obtain r s1 where g: "summary env c s = (r, s1)" by (cases "summary env c s")
  from assms [of c s] g have f: "results_file s1 = results_file s" by simp
  show ?case
  proof (cases r)
    case (Inl e)
    with g f show ?thesis by simp
  next
    case (Inr response)
    with g f Cons.IH [of "sums @ [response]" s1] show ?thesis by simp
  qed
qed

lemma report_method_results_file:
  assumes "\<And>text s. results_file (snd (summary env text s)) = results_file s"
  shows "results_file (snd (report_method summary env s)) = results_file s"
proof (cases "results_file s")
  case No_file
  then show ?thesis by (simp add: report_method_def path_exists_def)
next
  case Zero_bytes
  then show ?thesis by (simp add: report_method_def getsize_is_zero_def)
next
  case (Json records)
  define blob where "blob = join (str ''\<newline>\<newline>'') (map source_block records)"
  define mid where "mid =
     (if length blob > CHUNK_SIZE
      then (case summarize_chunks summary env (chunks blob) [] s of
              (Inl e, s1) \<Rightarrow> (Inl e, s1)
            | (Inr summaries, s1) \<Rightarrow> summary env (join (str ''\<newline>\<newline>'') summaries) s1)
      else summary env blob s)"
  have r: "report_method summary env s =
     (case mid of (Inl e, s2) \<Rightarrow> (Inl e, s2)
        | (Inr final_report, s2) \<Rightarrow> write_report final_report s2)"
    using Json
    by (simp add: report_method_def path_exists_def getsize_is_zero_def json_load_def
        blob_def mid_def)
  have m: "results_file (snd mid) = results_file s"
  proof (cases "length blob > CHUNK_SIZE")
    case False
    then show ?thesis using assms [of blob s] by (simp add: mid_def)
  next
    case True
    obtain r1 s1 where c: "summarize_chunks summary env (chunks blob) [] s = (r1, s1)"
      by (cases "summarize_chunks summary env (chunks blob) [] s")
    from summarize_chunks_results_file [of summary env "chunks blob" "[]" s, OF assms] c
    have f1: "results_file s1 = results_file s" by simp
    show ?thesis
    proof (cases r1)
      case (Inl e)
      with True c f1 show ?thesis by (simp add: mid_def)
    next
      case (Inr summaries)
      with True c f1 assms [of "join (str ''\<newline>\<newline>'') summaries" s1]
      show ?thesis by (simp add: mid_def)
    qed
  qed
  obtain r2 s2 where mm: "mid = (r2, s2)" by (cases mid)
  with m have "results_file s2 = results_file s" by simp
  then show ?thesis using r mm by (cases r2) (simp_all add: write_report_results_file)
qed

lemma report_results_file: "results_file (snd (report env s)) = results_file s"
  unfolding report_def
  by (rule report_method_results_file) (simp add: get_ai_summary_def Let_def split: sum.splits)

lemma report_serper_results_file: "results_file (snd (report_serper env s)) = results_file s"
  unfolding report_serper_def
  by (rule report_method_results_file) (simp add: get_ai_summary_serper_def)

lemma run_serper_corpus:
  "\<exists>new. corpus (run_serper env c s) = corpus s @ new \<and> list_all record_ok new"
proof (cases c)
  case (Get_querries theme)
  then show ?thesis
    using corpus_cong [OF get_querries_results_file [of env theme s]] by (simp add: run_serper_def)
next
  case (Search query)
  from search_serper_shape [of env s query] show ?thesis
  proof (elim disjE exE conjE)
    fix e
    assume "search_serper env query s = (Inl e, emit (Serper_request query) s)"
    then show ?thesis using Search by (simp add: run_serper_def corpus_emit)
  next
    fix response built s1
    assume "list_all record_ok built"
      and "search_serper env query s = (Inr (), s1\<lparr>results_file := Json (corpus s @ built)\<rparr>)"
    then show ?thesis using Search by (simp add: run_serper_def corpus_def)
  qed
next
  case Report
  then show ?thesis
    using corpus_cong [OF report_serper_results_file [of env s]] by (simp add: run_serper_def)
qed

lemma run_brave_corpus:
  "\<exists>new. corpus (run_brave env c s) = corpus s @ new
     \<and> list_all (\<lambda>x. length (rec_text x) \<le> 100000
                     \<and> (\<exists>t sp. fetch_page env t (rec_url x) = Inr sp)) new"
proof (cases c)
  case (Get_querries theme)
  then show ?thesis
    using corpus_cong [OF get_querries_results_file [of env theme s]] by (simp add: run_brave_def)
next
  case (Search query)
  from search_shape [of env query s] show ?thesis
  proof (elim disjE exE conjE)
    fix e s1
    assume "search env query s = (Inl e, s1)" and "results_file s1 = results_file s"
    then show ?thesis using Search corpus_cong [of s1 s] by (simp add: run_brave_def)
  next
    fix response built s1
    assume "list_all (\<lambda>x. length (rec_text x) \<le> 100000
                             \<and> (\<exists>t sp. fetch_page env t (rec_url x) = Inr sp)) built"
      and "search env query s = (Inr (), s1\<lparr>results_file := Json (corpus s @ built)\<rparr>)"
    then show ?thesis using Search by (simp add: run_brave_def corpus_def)
  qed
next
  case Report
  then show ?thesis
    using corpus_cong [OF report_results_file [of env s]] by (simp add: run_brave_def)
qed

lemma fold_corpus:
  assumes "\<And>c s. \<exists>new. corpus (step c s) = corpus s @ new \<and> list_all P new"
  shows "\<exists>new. corpus (fold step calls s) = corpus s @ new \<and> list_all P new"
proof (induction calls arbitrary: s)
  case Nil
  show ?case by simp
next
  case (Cons c calls)
  from assms [of c s] obtain n1 where a: "corpus (step c s) = corpus s @ n1" "list_all P n1"
    by blast
  from Cons.IH [of "step c s"] obtain n2 where
    b: "corpus (fold step calls (step c s)) = corpus (step c s) @ n2" "list_all P n2" by blast
  from a b have "corpus (fold step (c # calls) s) = corpus s @ (n1 @ n2) \<and> list_all P (n1 @ n2)"
    by simp
  then show ?case by blast
qed

lemma trace_emit: "trace (emit e s) = trace s @ [e]"
  by (simp add: emit_def)

lemma serper_loop_fetches:
  "serper_loop env rs acc s = (r, s') \<Longrightarrow>
     \<exists>evs. trace s' = trace s @ evs \<and> Page_fetch [] \<notin> set evs"
proof (induction rs arbitrary: acc s)
  case Nil
  then show ?case by simp
next
  case (Cons res rest)
  define url where "url = dict_get res (str ''link'') []"
  show ?case
  proof (cases "url = []")
    case True
    with Cons.prems have "serper_loop env rest acc s = (r, s')"
      by (simp add: url_def [symmetric])
    then show ?thesis by (rule Cons.IH)
  next
    case False
    from process_page_cases [of env s url res acc] show ?thesis
    proof (elim disjE exE conjE)
      fix e
      assume p: "process_page env res url acc s = (Inl e, emit (Page_fetch url) s)"
      with Cons.prems False have
        "serper_loop env rest acc (emit (Print_error url e) (emit (Page_fetch url) s)) = (r, s')"
        by (simp add: url_def [symmetric])
      from Cons.IH [OF this] obtain evs where
        "trace s' = trace s @ [Page_fetch url, Print_error url e] @ evs"
        and "Page_fetch [] \<notin> set evs" by (auto simp: trace_emit)
      with False have "trace s' = trace s @ ([Page_fetch url, Print_error url e] @ evs)
          \<and> Page_fetch [] \<notin> set ([Page_fetch url, Print_error url e] @ evs)" by simp
      then show ?thesis by blast
    next
      fix sp
      assume p: "process_page env res url acc s =
            (Inr (acc @ [\<lparr>rec_url = url, rec_title = resolve_title res sp,
                               rec_text = take 100000 (extract_text sp)\<rparr>]),
             emit (Sleep 1) (emit (Page_fetch url) s))"
      with Cons.prems False have
        "serper_loop env rest (acc @ [\<lparr>rec_url = url, rec_title = resolve_title res sp,
                               rec_text = take 100000 (extract_text sp)\<rparr>])
           (emit (Sleep 1) (emit (Page_fetch url) s)) = (r, s')"
        by (simp add: url_def [symmetric])
      from Cons.IH [OF this] obtain evs where
        "trace s' = trace s @ [Page_fetch url, Sleep 1] @ evs"
        and "Page_fetch [] \<notin> set evs" by (auto simp: trace_emit)
      with False have "trace s' = trace s @ ([Page_fetch url, Sleep 1] @ evs)
          \<and> Page_fetch [] \<notin> set ([Page_fetch url, Sleep 1] @ evs)" by simp
      then show ?thesis by blast
    qed
  qed
qed

lemma search_serper_fetches:
  "Page_fetch [] \<notin> set (new_events s (snd (search_serper env query s)))"
proof (cases "serper_search env (length (trace s)) query")
  case (Inl e)
  then show ?thesis
    by (simp add: search_serper_def Let_def new_events_def trace_emit)
next
  case (Inr response)
  define s0 where "s0 = emit (Serper_request query) s"
  obtain r s1 where l: "serper_loop env (organic_results response) [] s0 = (r, s1)"
    by (cases "serper_loop env (organic_results response) [] s0")
  from serper_loop_fetches [OF l] obtain evs where
    t: "trace s1 = trace s @ [Serper_request query] @ evs" and n: "Page_fetch [] \<notin> set evs"
    by (auto simp: s0_def trace_emit)
  have "trace (snd (search_serper env query s)) = trace s1"
    using Inr l
    by (cases r) (simp_all add: search_serper_def Let_def s0_def [symmetric] append_results_effect)
  with t n show ?thesis by (simp add: new_events_def)
qed

text \<open>
  C6. Every record of the corpus has a non-empty url and a text of at most 100,000
  characters after every sequence of calls, if it was so before. For the Serper variants,
  which skip a result without link before fetching (their \<open>search\<close> never fetches the empty
  url), this holds whatever the outside world does. For the Brave variant the bound on
  the text holds in the same way; its loop hands every url to the fetcher, so the url is
  non-empty whenever the fetcher rejects the empty url (as \<open>requests.get('')\<close> does).
\<close>

theorem record_invariant:
  "(list_all record_ok (corpus s) \<longrightarrow>
      list_all record_ok (corpus (fold (run_serper env) calls s)))
   \<and> (list_all (\<lambda>r. length (rec_text r) \<le> 100000) (corpus s) \<longrightarrow>
      list_all (\<lambda>r. length (rec_text r) \<le> 100000) (corpus (fold (run_brave env) calls s)))
   \<and> ((\<forall>t. \<exists>e. fetch_page env t [] = Inl e) \<and> list_all record_ok (corpus s) \<longrightarrow>
      list_all record_ok (corpus (fold (run_brave env) calls s)))
   \<and> Page_fetch [] \<notin> set (new_events s (snd (search_serper env query s)))"
proof (intro conjI impI)
  assume "list_all record_ok (corpus s)"
  moreover from fold_corpus [of "run_serper env" record_ok calls s, OF run_serper_corpus]
  obtain new where "corpus (fold (run_serper env) calls s) = corpus s @ new"
    and "list_all record_ok new" by blast
  ultimately show "list_all record_ok (corpus (fold (run_serper env) calls s))" by simp
next
  from fold_corpus [of "run_brave env" _ calls s, OF run_brave_corpus]
  obtain new where c: "corpus (fold (run_brave env) calls s) = corpus s @ new"
    and n: "list_all (\<lambda>x. length (rec_text x) \<le> 100000
                     \<and> (\<exists>t sp. fetch_page env t (rec_url x) = Inr sp)) new" by blast
  {
    assume "list_all (\<lambda>r. length (rec_text r) \<le> 100000) (corpus s)"
    with c n show "list_all (\<lambda>r. length (rec_text r) \<le> 100000)
        (corpus (fold (run_brave env) calls s))"
      by (auto simp: list_all_iff)
  }
  {
    assume "(\<forall>t. \<exists>e. fetch_page env t [] = Inl e) \<and> list_all record_ok (corpus s)"
    then have all: "\<forall>t. \<exists>e. fetch_page env t [] = Inl e"
      and ok: "list_all record_ok (corpus s)" by simp_all
    have rej: "fetch_page env t [] \<noteq> Inr sp" for t sp
      using all by (metis sum.distinct(1))
    have "record_ok x" if "x \<in> set new" for x
    proof -
      from n that obtain t sp where "length (rec_text x) \<le> 100000"
        and "fetch_page env t (rec_url x) = Inr sp" by (auto simp: list_all_iff)
      with rej [of t sp] show ?thesis by (auto simp: record_ok_def)
    qed
    with c ok show "list_all record_ok (corpus (fold (run_brave env) calls s))"
      by (auto simp: list_all_iff)
  }
next
  show "Page_fetch [] \<notin> set (new_events s (snd (search_serper env query s)))"
    by (rule search_serper_fetches)
qed

lemma extract_text_demo: "extract_text demo_soup = str ''hello world''"
  by (simp add: extract_text_def demo_soup_def split_ws_def str_def isspace_def)

lemma search_demo:
  "search web_env (str ''q'') demo_state =
     (Inr (),
      demo_state\<lparr>results_file := Json [demo_record, record_a, record_d],
        trace := [Brave_request (str ''q''),
                  Page_fetch (str ''http://a''), Sleep 1,
                  Page_fetch (str ''http://b''),
                  Print_error (str ''http://b'') (RequestException (str ''timeout'')),
                  Page_fetch (str ''http://d''), Sleep 1]\<rparr>)"
  by (simp add: search_def web_env_def web_results_def dict_item_def process_page_def
      resolve_title_def dict_get_def extract_text_demo Let_def emit_def demo_state_def
      append_results_def path_exists_def getsize_is_zero_def json_load_def
      record_a_def record_d_def)
     (simp add: str_def demo_soup_def)

lemma search_bad:
  "search web_env (str ''bad'') demo_state =
     (Inl (KeyError (str ''url'')), demo_state\<lparr>trace := [Brave_request (str ''bad'')]\<rparr>)"
  by (simp add: search_def web_env_def web_results_def dict_item_def Let_def emit_def
      demo_state_def)
     (simp add: str_def)

lemma search_serper_demo:
  "search_serper web_env (str ''bad'') demo_state =
     (Inr (),
      demo_state\<lparr>results_file := Json [demo_record, record_a\<lparr>rec_title := Some (str ''Doc'')\<rparr>],
        trace := [Serper_request (str ''bad''),
                  Page_fetch (str ''http://b''),
                  Print_error (str ''http://b'') (RequestException (str ''timeout'')),
                  Page_fetch (str ''http://a''), Sleep 1]\<rparr>)"
  by (simp add: search_serper_def web_env_def organic_results_def process_page_def
      resolve_title_def dict_get_def extract_text_demo Let_def emit_def demo_state_def
      append_results_def path_exists_def getsize_is_zero_def json_load_def
      record_a_def)
     (simp add: str_def demo_soup_def)

lemma resolve_title_hint:
  "res (str ''title'') = Some hint \<Longrightarrow> hint \<noteq> [] \<Longrightarrow> resolve_title res sp = Some hint"
  by (simp add: resolve_title_def dict_get_def split: option.splits)

lemma resolve_title_document:
  "res (str ''title'') = None \<or> res (str ''title'') = Some [] \<Longrightarrow>
     soup_title sp = Some string \<Longrightarrow> resolve_title res sp = string"
  by (auto simp: resolve_title_def dict_get_def)

lemma resolve_title_empty:
  "res (str ''title'') = None \<or> res (str ''title'') = Some [] \<Longrightarrow>
     soup_title sp = None \<Longrightarrow> resolve_title res sp = Some []"
  by (auto simp: resolve_title_def dict_get_def)

lemma brave_loop_returns:
  "list_all (\<lambda>res. res (str ''url'') \<noteq> None) rs \<Longrightarrow>
     \<exists>out s'. brave_loop env rs acc s = (Inr out, s')"
proof (induction rs arbitrary: acc s)
  case Nil
  show ?case by simp
next
  case (Cons res rest)
  then obtain url where u: "res (str ''url'') = Some url" and r: "list_all (\<lambda>res. res (str ''url'') \<noteq> None) rest"
    by auto
  from process_page_cases [of env s url res acc] show ?case
  proof (elim disjE exE conjE)
    fix e
    assume "process_page env res url acc s = (Inl e, emit (Page_fetch url) s)"
    with Cons.IH [OF r, of acc "emit (Print_error url e) (emit (Page_fetch url) s)"] u
    show ?thesis by (simp add: dict_item_def)
  next
    fix sp
    assume "process_page env res url acc s =
            (Inr (acc @ [\<lparr>rec_url = url, rec_title = resolve_title res sp,
                               rec_text = take 100000 (extract_text sp)\<rparr>]),
             emit (Sleep 1) (emit (Page_fetch url) s))"
    with Cons.IH [OF r, of "acc @ [\<lparr>rec_url = url, rec_title = resolve_title res sp,
                               rec_text = take 100000 (extract_text sp)\<rparr>]"
          "emit (Sleep 1) (emit (Page_fetch url) s)"] u
    show ?thesis by (simp add: dict_item_def)
  qed
qed

lemma search_returns_when_urls_present:
  assumes "brave_search env (length (trace s)) query = Inr response"
    and "list_all (\<lambda>res. res (str ''url'') \<noteq> None) (web_results response)"
  shows "\<exists>s'. search env query s = (Inr (), s')"
proof -
  from brave_loop_returns [OF assms(2), of env "[]" "emit (Brave_request query) s"]
  obtain out s1 where
    "brave_loop env (web_results response) [] (emit (Brave_request query) s) = (Inr out, s1)"
    by blast
  with assms(1) show ?thesis
    by (simp add: search_def Let_def append_results_effect)
qed

lemma search_serper_returns:
  assumes "serper_search env (length (trace s)) query = Inr response"
  shows "\<exists>s'. search_serper env query s = (Inr (), s')"
  using search_serper_shape [of env s query] assms by auto

lemma report_serper_raises:
  assumes "results_file s = Json records"
  shows "report_serper env s = (Inl (AttributeError (str ''openrouter_api_key'')), s)"
proof -
  define blob where "blob = join (str ''\<newline>\<newline>'') (map source_block records)"
  show ?thesis
  proof (cases "length blob > CHUNK_SIZE")
    case False
    with assms show ?thesis
      by (simp add: report_serper_def report_method_def path_exists_def getsize_is_zero_def
          json_load_def get_ai_summary_serper_def blob_def [symmetric])
  next
    case True
    then have "blob \<noteq> []" by auto
    then obtain c cs where "chunks blob = c # cs"
      using chunks_nonempty [of blob] by (cases "chunks blob") auto
    with True assms show ?thesis
      by (simp add: report_serper_def report_method_def path_exists_def getsize_is_zero_def
          json_load_def get_ai_summary_serper_def blob_def [symmetric])
  qed
qed

lemma search_demo_events:
  "new_events demo_state (snd (search web_env (str ''q'') demo_state)) =
     [Brave_request (str ''q''),
      Page_fetch (str ''http://a''), Sleep 1,
      Page_fetch (str ''http://b''),
      Print_error (str ''http://b'') (RequestException (str ''timeout'')),
      Page_fetch (str ''http://d''), Sleep 1]"
  by (simp add: search_demo new_events_def) (simp add: demo_state_def)

lemma corpus_demo_state: "corpus demo_state = [demo_record]"
  by (simp add: corpus_def demo_state_def)

lemma extract_text_untitled: "extract_text untitled_soup = str ''hello world''"
  by (simp add: extract_text_def untitled_soup_def split_ws_def str_def isspace_def)

text \<open>
  C3. A \<open>search\<close> call that reaches its end writes the prior corpus followed by the records
  it built (\<open>search_shape\<close>, \<open>search_serper_shape\<close>). But the Brave variant can build a
  record and never append it: with a first result that is fetched and a second that has
  no url, the loop builds the record of the first, then \<open>res['url']\<close> raises \<open>KeyError\<close>
  out of \<open>search\<close>, the write at the end is never reached and the corpus is as before.
\<close>

theorem search_loses_built_record:
  "process_page late_env entry_d (str ''http://d'') [] (emit (Brave_request (str ''q'')) demo_state) =
     (Inr [record_d],
      demo_state\<lparr>trace := [Brave_request (str ''q''), Page_fetch (str ''http://d''), Sleep 1]\<rparr>)
   \<and> search late_env (str ''q'') demo_state =
     (Inl (KeyError (str ''url'')),
      demo_state\<lparr>trace := [Brave_request (str ''q''), Page_fetch (str ''http://d''), Sleep 1]\<rparr>)
   \<and> corpus (snd (search late_env (str ''q'') demo_state)) = corpus demo_state"
proof -
  have p: "process_page late_env entry_d (str ''http://d'') []
        (emit (Brave_request (str ''q'')) demo_state) =
     (Inr [record_d],
      demo_state\<lparr>trace := [Brave_request (str ''q''), Page_fetch (str ''http://d''), Sleep 1]\<rparr>)"
    by (simp add: process_page_def late_env_def web_env_def resolve_title_def dict_get_def
        extract_text_demo Let_def emit_def demo_state_def record_d_def entry_d_def)
       (simp add: str_def demo_soup_def)
  have s: "search late_env (str ''q'') demo_state =
     (Inl (KeyError (str ''url'')),
      demo_state\<lparr>trace := [Brave_request (str ''q''), Page_fetch (str ''http://d''), Sleep 1]\<rparr>)"
    by (simp add: search_def late_env_def web_env_def web_results_def dict_item_def
        process_page_def resolve_title_def dict_get_def extract_text_demo Let_def emit_def
        demo_state_def entry_d_def)
       (simp add: str_def demo_soup_def)
  have c: "corpus (snd (search late_env (str ''q'') demo_state)) = corpus demo_state"
    by (simp add: s corpus_def)
  show ?thesis by (intro conjI) (rule p s c)+
qed

text \<open>
  C8. A non-empty provider title is the record's title (\<open>resolve_title_hint\<close>), and
  without one and without a \<open>title\<close> element it is the empty string
  (\<open>resolve_title_empty\<close>). But for a result without title whose page has an empty \<open>title\<close>
  element, \<open>soup.title\<close> is true and \<open>soup.title.string\<close> is \<open>None\<close>: the record stored has
  the title \<open>None\<close>, neither a title of the document nor the empty string.
\<close>

theorem search_stores_null_title:
  "entry_d (str ''title'') = None
   \<and> soup_title untitled_soup = Some None
   \<and> search untitled_env (str ''q'') demo_state =
     (Inr (),
      demo_state\<lparr>results_file := Json [demo_record,
          \<lparr>rec_url = str ''http://d'', rec_title = None, rec_text = str ''hello world''\<rparr>],
        trace := [Brave_request (str ''q''), Page_fetch (str ''http://d''), Sleep 1]\<rparr>)"
proof -
  have k: "entry_d (str ''title'') = None" by (simp add: entry_d_def str_def)
  have t: "soup_title untitled_soup = Some None" by (simp add: untitled_soup_def)
  have s: "search untitled_env (str ''q'') demo_state =
     (Inr (),
      demo_state\<lparr>results_file := Json [demo_record,
          \<lparr>rec_url = str ''http://d'', rec_title = None, rec_text = str ''hello world''\<rparr>],
        trace := [Brave_request (str ''q''), Page_fetch (str ''http://d''), Sleep 1]\<rparr>)"
    by (simp add: search_def untitled_env_def web_env_def web_results_def dict_item_def
        process_page_def resolve_title_def dict_get_def extract_text_untitled Let_def emit_def
        demo_state_def append_results_def path_exists_def getsize_is_zero_def json_load_def
        entry_d_def)
       (simp add: str_def untitled_soup_def)
  show ?thesis by (intro conjI) (rule k t s)+
qed

text \<open>
  C4. A fetch or parse failure of one result never leaves \<open>search\<close>: the Serper variants
  return whenever the provider answers (\<open>search_serper_returns\<close>), and the Brave variant
  does when every entry has a url (\<open>search_returns_when_urls_present\<close>). But the Brave
  variant reads \<open>res['url']\<close> before its \<open>try\<close>: on a result list whose first entry has no
  url, \<open>search\<close> raises \<open>KeyError\<close>, the valid second result is never fetched and nothing is
  appended, while the Serper variant on the same entries without link skips them and
  appends the rest.
\<close>

theorem search_raises_on_entry_without_url:
  "search web_env (str ''bad'') demo_state =
     (Inl (KeyError (str ''url'')), demo_state\<lparr>trace := [Brave_request (str ''bad'')]\<rparr>)
   \<and> corpus (snd (search web_env (str ''bad'') demo_state)) = corpus demo_state
   \<and> search_serper web_env (str ''bad'') demo_state =
     (Inr (),
      demo_state\<lparr>results_file := Json [demo_record, record_a\<lparr>rec_title := Some (str ''Doc'')\<rparr>],
        trace := [Serper_request (str ''bad''),
                  Page_fetch (str ''http://b''),
                  Print_error (str ''http://b'') (RequestException (str ''timeout'')),
                  Page_fetch (str ''http://a''), Sleep 1]\<rparr>)"
proof (intro conjI)
  show "corpus (snd (search web_env (str ''bad'') demo_state)) = corpus demo_state"
    by (simp add: search_bad corpus_def)
qed (rule search_bad search_serper_demo)+

text \<open>
  C9. The one-second sleep stands at the end of the \<open>try\<close> body, so it follows only a
  result that was processed without exception. With three results of which the second
  fails, the third page is fetched right after the error message, with no sleep since the
  second fetch: the delay does not separate every pair of consecutive fetches.
\<close>

theorem search_no_sleep_after_failed_fetch:
  "new_events demo_state (snd (search web_env (str ''q'') demo_state)) =
     [Brave_request (str ''q''),
      Page_fetch (str ''http://a''), Sleep 1,
      Page_fetch (str ''http://b''),
      Print_error (str ''http://b'') (RequestException (str ''timeout'')),
      Page_fetch (str ''http://d''), Sleep 1]
   \<and> \<not> fetches_delayed True
        (new_events demo_state (snd (search web_env (str ''q'') demo_state)))"
  unfolding search_demo_events by simp

theorem record_invariant_witness:
  "list_all record_ok (corpus demo_state)
   \<and> (\<forall>t. \<exists>e. fetch_page web_env t [] = Inl e)
   \<and> list_all record_ok
       (corpus (fold (run_serper web_env) [Search (str ''q''), Report, Search (str ''bad'')] demo_state))
   \<and> list_all record_ok
       (corpus (fold (run_brave web_env) [Search (str ''q''), Report, Search (str ''bad'')] demo_state))"
proof -
  have ok: "list_all record_ok (corpus demo_state)"
    by (simp add: corpus_demo_state record_ok_def demo_record_def str_def)
  have rej: "\<forall>t. \<exists>e. fetch_page web_env t [] = Inl e" by (simp add: web_env_def)
  note t = record_invariant [where s = demo_state and env = web_env
      and calls = "[Search (str ''q''), Report, Search (str ''bad'')]" and query = "str ''q''"]
  from t ok have a: "list_all record_ok
       (corpus (fold (run_serper web_env) [Search (str ''q''), Report, Search (str ''bad'')] demo_state))"
    by (elim conjE) simp
  from t ok rej have b: "list_all record_ok
       (corpus (fold (run_brave web_env) [Search (str ''q''), Report, Search (str ''bad'')] demo_state))"
    by (elim conjE) simp
  show ?thesis by (intro conjI) (rule ok rej a b)+
qed

end
